theory Spec2Isabelle
  imports Complex_Main "HOL-Library.AList" "HOL-Library.Multiset" "HOL-Library.Sublist" "HOL-Library.Word"
begin

section \<open>JavaScript numbers\<close>

text \<open>
  Every number of \<^verbatim>\<open>App.tsx\<close> is an IEEE 754 binary64 value. A finite value is
  modelled by the rational it denotes (\<open>Fin 0\<close> is \<open>+0\<close>), and the arithmetic operators
  compute the exact rational result and round it to the nearest binary64 value, ties to
  even, as ECMAScript prescribes for \<^verbatim>\<open>+ - * /\<close>.
\<close>

datatype number = NaN | PosInf | NegInf | NegZero | Fin rat

text \<open>The number of binary digits of a positive integer.\<close>

function bitLength :: "int \<Rightarrow> nat" where
  "bitLength n = (if n \<le> 0 then 0 else Suc (bitLength (n div 2)))"
  by pat_completeness auto
termination
  by (relation "measure nat") auto

declare bitLength.simps [simp del]

text \<open>\<open>ilog2 q\<close> is the exponent of the leading bit of a positive \<open>q\<close>: \<open>2 ^ ilog2 q \<le> q < 2 ^ (ilog2 q + 1)\<close>.\<close>

definition ilog2 :: "rat \<Rightarrow> int" where
  "ilog2 q = (if 1 \<le> q then int (bitLength \<lfloor>q\<rfloor>) - 1
              else - int (bitLength (\<lceil>1 / q\<rceil> - 1)))"

definition pow2 :: "int \<Rightarrow> rat" where
  "pow2 k = (if 0 \<le> k then 2 ^ nat k else 1 / 2 ^ nat (- k))"

definition roundHalfEven :: "rat \<Rightarrow> int" where
  "roundHalfEven x =
     (let n = \<lfloor>x\<rfloor>; r = x - of_int n
      in if r < 1 / 2 then n else if 1 / 2 < r then n + 1
         else if even n then n else n + 1)"

text \<open>
  Rounding to binary64: 53 significant bits, the unit in the last place never below
  \<open>2 ^ - 1074\<close> (subnormal range), overflow to an infinity when the rounded value
  reaches \<open>2 ^ 1024\<close>, and a result that underflows to zero keeps the sign.
\<close>

definition round64 :: "rat \<Rightarrow> number" where
  "round64 q =
     (if q = 0 then Fin 0
      else let u = pow2 (max (ilog2 \<bar>q\<bar>) (- 1022) - 52);
               r = of_int (roundHalfEven (q / u)) * u
           in if r = 0 then (if q < 0 then NegZero else Fin 0)
              else if 1024 \<le> ilog2 \<bar>r\<bar> then (if q < 0 then NegInf else PosInf)
              else Fin r)"

fun val :: "number \<Rightarrow> rat" where
  "val (Fin q) = q"
| "val _ = 0"

fun isInf :: "number \<Rightarrow> bool" where
  "isInf PosInf = True"
| "isInf NegInf = True"
| "isInf _ = False"

fun isZero :: "number \<Rightarrow> bool" where
  "isZero NegZero = True"
| "isZero (Fin q) = (q = 0)"
| "isZero _ = False"

fun signBit :: "number \<Rightarrow> bool" where
  "signBit NegInf = True"
| "signBit NegZero = True"
| "signBit (Fin q) = (q < 0)"
| "signBit _ = False"

definition signedInf :: "bool \<Rightarrow> number" where
  "signedInf s = (if s then NegInf else PosInf)"

definition signedZero :: "bool \<Rightarrow> number" where
  "signedZero s = (if s then NegZero else Fin 0)"

fun js_neg :: "number \<Rightarrow> number" where
  "js_neg NaN = NaN"
| "js_neg PosInf = NegInf"
| "js_neg NegInf = PosInf"
| "js_neg NegZero = Fin 0"
| "js_neg (Fin q) = (if q = 0 then NegZero else Fin (- q))"

definition js_add :: "number \<Rightarrow> number \<Rightarrow> number" where
  "js_add a b =
     (if a = NaN \<or> b = NaN then NaN
      else if isInf a \<and> isInf b then (if a = b then a else NaN)
      else if isInf a then a
      else if isInf b then b
      else if a = NegZero \<and> b = NegZero then NegZero
      else round64 (val a + val b))"

definition js_sub :: "number \<Rightarrow> number \<Rightarrow> number" where
  "js_sub a b = js_add a (js_neg b)"

definition js_mul :: "number \<Rightarrow> number \<Rightarrow> number" where
  "js_mul a b =
     (if a = NaN \<or> b = NaN then NaN
      else if isInf a \<or> isInf b
        then (if isZero a \<or> isZero b then NaN else signedInf (signBit a \<noteq> signBit b))
      else if isZero a \<or> isZero b then signedZero (signBit a \<noteq> signBit b)
      else round64 (val a * val b))"

definition js_div :: "number \<Rightarrow> number \<Rightarrow> number" where
  "js_div a b =
     (if a = NaN \<or> b = NaN then NaN
      else if isInf a then (if isInf b then NaN else signedInf (signBit a \<noteq> signBit b))
      else if isInf b then signedZero (signBit a \<noteq> signBit b)
      else if isZero b then (if isZero a then NaN else signedInf (signBit a \<noteq> signBit b))
      else if isZero a then signedZero (signBit a \<noteq> signBit b)
      else round64 (val a / val b))"

text \<open>Comparisons: false as soon as an operand is \<open>NaN\<close>; the two zeros are equal.\<close>

fun rank :: "number \<Rightarrow> int" where
  "rank NegInf = - 1"
| "rank PosInf = 1"
| "rank _ = 0"

definition js_lt :: "number \<Rightarrow> number \<Rightarrow> bool" where
  "js_lt a b = (a \<noteq> NaN \<and> b \<noteq> NaN \<and> (rank a < rank b \<or> rank a = rank b \<and> val a < val b))"

definition js_le :: "number \<Rightarrow> number \<Rightarrow> bool" where
  "js_le a b = (a \<noteq> NaN \<and> b \<noteq> NaN \<and> (rank a < rank b \<or> rank a = rank b \<and> val a \<le> val b))"

definition js_gt :: "number \<Rightarrow> number \<Rightarrow> bool" where
  "js_gt a b = js_lt b a"

definition js_ge :: "number \<Rightarrow> number \<Rightarrow> bool" where
  "js_ge a b = js_le b a"

text \<open>
  Array lengths, canvas sizes and bytes are integers below \<open>2 ^ 32\<close>, which binary64 holds
  exactly.
\<close>

definition ofNat :: "nat \<Rightarrow> number" where
  "ofNat n = Fin (of_nat n)"

section \<open>Property keys and the object \<^verbatim>\<open>dataMap\<close>\<close>

text \<open>
  \<^verbatim>\<open>dataMap[time]\<close> turns the number into a string. Number-to-string conversion gives
  different numbers different strings, except that \<open>-0\<close> and \<open>+0\<close> both give
  \<^verbatim>\<open>"0"\<close>, and \<^verbatim>\<open>parseFloat\<close> reads the number back. A key is therefore modelled by
  the number it was made from, with \<open>-0\<close> folded into \<open>+0\<close>. The key is an array index
  when the number is an integer from 0 to \<open>2 ^ 32 - 2\<close>: its string is then the
  canonical decimal numeral.
\<close>

type_synonym key = number

definition toKey :: "number \<Rightarrow> key" where
  "toKey x = (if x = NegZero then Fin 0 else x)"

definition parseFloat :: "key \<Rightarrow> number" where
  "parseFloat k = k"

definition arrayIndex :: "key \<Rightarrow> nat option" where
  "arrayIndex k =
     (case k of
        Fin q \<Rightarrow> if 0 \<le> q \<and> q \<le> 4294967294 \<and> of_int \<lfloor>q\<rfloor> = q then Some (nat \<lfloor>q\<rfloor>) else None
      | _ \<Rightarrow> None)"

definition isIndex :: "key \<times> 'v \<Rightarrow> bool" where
  "isIndex e = (arrayIndex (fst e) \<noteq> None)"

definition indexOf :: "key \<times> 'v \<Rightarrow> nat" where
  "indexOf e = (case arrayIndex (fst e) of Some n \<Rightarrow> n | None \<Rightarrow> 0)"

text \<open>
  An ordinary object keeps its properties in creation order; assigning to an existing
  key replaces the value where it stands, assigning to a new key appends
  (\<open>AList.update\<close>). \<^verbatim>\<open>Object.entries\<close> lists the array-index keys first, in ascending
  numeric order, then the other keys in creation order.
\<close>

type_synonym 'v object = "(key \<times> 'v) list"

definition setProp :: "key \<Rightarrow> 'v \<Rightarrow> 'v object \<Rightarrow> 'v object" where
  "setProp k v m = AList.update k v m"

definition entries :: "'v object \<Rightarrow> (key \<times> 'v) list" where
  "entries m = sort_key indexOf (filter isIndex m) @ filter (\<lambda>e. \<not> isIndex e) m"

section \<open>The data sink\<close>

type_synonym byte = "8 word"

text \<open>
  A value read from a \<^verbatim>\<open>Uint8Array\<close>: a byte, or \<^verbatim>\<open>undefined\<close> (\<open>None\<close>) past
  the end of the array.
\<close>

type_synonym sample = "byte option"

definition u8At :: "byte list \<Rightarrow> nat \<Rightarrow> sample" where
  "u8At d j = (if j < length d then Some (d ! j) else None)"

record frame =
  timeStart :: number
  data :: "byte list"

record DataSink =
  sampleRate :: number
  bufferLength :: nat
  maxBufferIndex :: nat
  rawData :: "frame list"
  data :: "sample list"

text \<open>
  The two faults of the program: a TypeError of the language (a property of
  \<^verbatim>\<open>undefined\<close> is read or set), and \<^verbatim>\<open>Error('Canvas or context not found')\<close>
  thrown by \<^verbatim>\<open>getCanvas\<close>.
\<close>

datatype error = TypeError | CanvasNotFound

section \<open>\<^verbatim>\<open>createAnalyserWithDataSink\<close>\<close>

text \<open>
  The analyser gets \<^verbatim>\<open>fftSize = 2048\<close>; its \<^verbatim>\<open>frequencyBinCount\<close> is half the FFT
  size. \<^verbatim>\<open>new Uint8Array(n)\<close> is \<open>n\<close> zero bytes.
\<close>

record analyser =
  fftSize :: nat

definition frequencyBinCount :: "analyser \<Rightarrow> nat" where
  "frequencyBinCount a = fftSize a div 2"

text \<open>
  The loop \<^verbatim>\<open>for (let i = 0; i < dataSink.maxBufferIndex; i += 1) dataSink.rawData.push(...)\<close>,
  started on the empty \<^verbatim>\<open>rawData\<close>.
\<close>

definition pushFrames :: "nat \<Rightarrow> nat \<Rightarrow> frame list" where
  "pushFrames maxIndex bufLen =
     fold (\<lambda>i rawData. rawData @ [\<lparr>timeStart = Fin (- 1), data = replicate bufLen 0\<rparr>])
       [0..<maxIndex] []"

definition createAnalyserWithDataSink :: "number \<Rightarrow> analyser \<times> DataSink" where
  "createAnalyserWithDataSink ctxSampleRate =
     (let analyser = \<lparr>fftSize = 2048\<rparr>;
          bufferLength = frequencyBinCount analyser;
          dataSink = \<lparr>sampleRate = ctxSampleRate, bufferLength = bufferLength,
                      maxBufferIndex = 100, rawData = [], data = []\<rparr>
      in (analyser, dataSink\<lparr>rawData := pushFrames (maxBufferIndex dataSink) bufferLength\<rparr>))"

section \<open>\<^verbatim>\<open>clearData\<close>: the reconciler\<close>

text \<open>
  One turn of the inner loop over \<open>j\<close>:
  \<^verbatim>\<open>dataMap[time] = dataSink.rawData[i].data[j]; time += frameTimeInc\<close>.
\<close>

definition writeSample :: "number \<Rightarrow> byte list \<Rightarrow> nat \<Rightarrow> number \<times> sample object \<Rightarrow> number \<times> sample object" where
  "writeSample frameTimeInc d j =
     (\<lambda>(time, dataMap). (js_add time frameTimeInc, setProp (toKey time) (u8At d j) dataMap))"

text \<open>One turn of the outer loop over \<open>i\<close>: a frame with \<open>timeStart < 0\<close> is skipped.\<close>

definition writeFrame :: "number \<Rightarrow> nat \<Rightarrow> frame \<Rightarrow> sample object \<Rightarrow> sample object" where
  "writeFrame frameTimeInc n f dataMap =
     (if js_lt (timeStart f) (Fin 0) then dataMap
      else snd (fold (writeSample frameTimeInc (frame.data f)) [0..<n] (timeStart f, dataMap)))"

definition buildDataMap :: "DataSink \<Rightarrow> sample object" where
  "buildDataMap ds =
     fold (writeFrame (js_div (Fin 1) (sampleRate ds)) (bufferLength ds)) (rawData ds) []"

text \<open>One turn of the loop over the entries; the state is \<open>(start, end, outputData)\<close>.\<close>

definition thinStep :: "number \<Rightarrow> key \<times> sample \<Rightarrow> number \<times> number \<times> sample list \<Rightarrow> number \<times> number \<times> sample list" where
  "thinStep epsilon =
     (\<lambda>(fTimeStr, v) (start, end', outputData).
        let fTime = parseFloat fTimeStr
        in if js_ge fTime start \<and> js_le fTime end'
           then (js_add start (js_mul (Fin 2) epsilon),
                 js_add end' (js_mul (Fin 2) epsilon),
                 outputData @ [v])
           else (start, end', outputData))"

definition epsilonOf :: "DataSink \<Rightarrow> number" where
  "epsilonOf ds = js_mul (Fin 1) (js_div (Fin 1) (sampleRate ds))"

definition initWindow :: "DataSink \<Rightarrow> frame \<Rightarrow> number \<times> number \<times> sample list" where
  "initWindow ds f0 =
     (js_sub (timeStart f0) (epsilonOf ds), js_add (timeStart f0) (epsilonOf ds), [])"

text \<open>
  \<^verbatim>\<open>dataSink.rawData[0].timeStart\<close> on an empty \<^verbatim>\<open>rawData\<close> reads a property of
  \<^verbatim>\<open>undefined\<close>: a TypeError, after the map has been built and before anything is
  assigned.
\<close>

definition clearData :: "DataSink \<Rightarrow> error + DataSink" where
  "clearData ds =
     (let dataMap = buildDataMap ds
      in case rawData ds of
           [] \<Rightarrow> Inl TypeError
         | f0 # _ \<Rightarrow>
             (case fold (thinStep (epsilonOf ds)) (entries dataMap) (initWindow ds f0) of
                (start, end', outputData) \<Rightarrow> Inr (ds\<lparr>data := outputData\<rparr>)))"

subsection \<open>Closed forms of the loops\<close>

text \<open>
  The value of \<open>time\<close> in the inner loop when it reaches index \<open>j\<close>: the frame's start with
  the increment added \<open>j\<close> times, each sum rounded.
\<close>

definition timeAt :: "number \<Rightarrow> number \<Rightarrow> nat \<Rightarrow> number" where
  "timeAt inc t j = ((\<lambda>time. js_add time inc) ^^ j) t"

text \<open>
  The window after \<open>n\<close> acceptances is the initial window advanced \<open>n\<close> times by
  \<open>2 * epsilon\<close>; \<open>thinCount\<close> runs the thinning loop on the number of acceptances alone.
\<close>

definition advance :: "number \<Rightarrow> number \<Rightarrow> number" where
  "advance epsilon x = js_add x (js_mul (Fin 2) epsilon)"

definition accepts :: "number \<Rightarrow> number \<times> number \<Rightarrow> nat \<Rightarrow> key \<Rightarrow> bool" where
  "accepts epsilon w n k =
     (js_ge (parseFloat k) ((advance epsilon ^^ n) (fst w))
      \<and> js_le (parseFloat k) ((advance epsilon ^^ n) (snd w)))"

fun thinCount :: "number \<Rightarrow> number \<times> number \<Rightarrow> (key \<times> 'v) list \<Rightarrow> nat \<Rightarrow> nat" where
  "thinCount epsilon w [] n = n"
| "thinCount epsilon w (e # es) n =
     thinCount epsilon w es (if accepts epsilon w n (fst e) then Suc n else n)"

abbreviation sameKey :: "key \<times> 'v \<Rightarrow> key \<times> 'v \<Rightarrow> bool" where
  "sameKey a b \<equiv> fst a = fst b"

section \<open>\<^verbatim>\<open>drawData\<close>: the renderer\<close>

record canvas =
  width :: nat
  height :: nat

definition getCanvas :: "canvas option \<Rightarrow> error + canvas" where
  "getCanvas cv = (case cv of None \<Rightarrow> Inl CanvasNotFound | Some c \<Rightarrow> Inr c)"

definition cPlotPadding :: number where
  "cPlotPadding = Fin 40"

text \<open>The calls made on the path between \<^verbatim>\<open>beginPath\<close> and \<^verbatim>\<open>stroke\<close>.\<close>

datatype pathCmd = MoveTo number number | LineTo number number

text \<open>
  \<^verbatim>\<open>dataSink.data[i]\<close> is \<^verbatim>\<open>undefined\<close> past the end, and \<^verbatim>\<open>undefined\<close> in a
  product is \<open>NaN\<close>.
\<close>

definition dataAt :: "sample list \<Rightarrow> nat \<Rightarrow> sample" where
  "dataAt xs i = (if i < length xs then xs ! i else None)"

definition toNumber :: "sample \<Rightarrow> number" where
  "toNumber v = (case v of None \<Rightarrow> NaN | Some b \<Rightarrow> ofNat (unat b))"

definition getY :: "canvas \<Rightarrow> sample \<Rightarrow> number" where
  "getY c v = js_div (js_mul (toNumber v) (ofNat (height c))) (Fin 256)"

text \<open>One turn of the loop over \<open>i\<close>: \<^verbatim>\<open>lineTo(x, getY(data[i])); x += xIncrement\<close>.\<close>

definition lineStep :: "canvas \<Rightarrow> sample list \<Rightarrow> number \<Rightarrow> nat \<Rightarrow> number \<times> pathCmd list \<Rightarrow> number \<times> pathCmd list" where
  "lineStep c d xIncrement i =
     (\<lambda>(x, path). (js_add x xIncrement, path @ [LineTo x (getY c (dataAt d i))]))"

text \<open>\<^verbatim>\<open>const xIncrement = (canvas.width - cPlotPadding) / dataSink.data.length\<close>.\<close>

definition xIncrementOf :: "canvas \<Rightarrow> nat \<Rightarrow> number" where
  "xIncrementOf c n = js_div (js_sub (ofNat (width c)) cPlotPadding) (ofNat n)"

text \<open>
  \<^verbatim>\<open>clear()\<close> wipes the surface and strokes the grid and the axes as paths of their
  own before \<^verbatim>\<open>beginPath\<close>; the result here is the path of the data.
\<close>

definition drawData :: "canvas option \<Rightarrow> DataSink \<Rightarrow> error + pathCmd list" where
  "drawData cv dataSink =
     (case getCanvas cv of
        Inl e \<Rightarrow> Inl e
      | Inr c \<Rightarrow>
          let d = DataSink.data dataSink;
              xIncrement = xIncrementOf c (length d);
              x = cPlotPadding;
              path = [MoveTo (Fin 0) (getY c (dataAt d 0))]
          in Inr (snd (fold (lineStep c d xIncrement) [1..<length d] (x, path))))"

text \<open>
  The value of \<open>x\<close> when the loop reaches index \<open>i \<ge> 1\<close> for \<open>n\<close> samples: the padding,
  with the increment added \<open>i - 1\<close> times, each sum rounded.
\<close>

definition xAt :: "canvas \<Rightarrow> nat \<Rightarrow> nat \<Rightarrow> number" where
  "xAt c n i = ((\<lambda>x. js_add x (xIncrementOf c n)) ^^ (i - 1)) cPlotPadding"

section \<open>\<^verbatim>\<open>gatherData\<close>: one tick of the sampling loop\<close>

text \<open>
  \<^verbatim>\<open>getByteTimeDomainData(array)\<close> copies the analyser's current block into the array:
  bytes beyond the array are dropped, array elements beyond the block are left as they
  are.
\<close>

definition getByteTimeDomainData :: "byte list \<Rightarrow> byte list \<Rightarrow> byte list" where
  "getByteTimeDomainData block array = take (length array) block @ drop (length block) array"

text \<open>
  A tick either ends the loop (the sink after \<^verbatim>\<open>clearData\<close> and the path drawn by
  \<^verbatim>\<open>drawData\<close>), or asks \<^verbatim>\<open>requestAnimationFrame\<close> for one more tick with the next
  index. \<^verbatim>\<open>logData\<close> only prints. The inputs of a tick are the canvas, the audio
  clock \<^verbatim>\<open>aCtx.currentTime\<close> (constant during a tick) and the analyser's current block.
  \<^verbatim>\<open>dataSink.rawData[currentIndex]\<close> past the end is \<^verbatim>\<open>undefined\<close>, and setting its
  \<^verbatim>\<open>timeStart\<close> is a TypeError.
\<close>

datatype tick = Finished DataSink "pathCmd list" | Scheduled DataSink nat

definition gatherData :: "canvas option \<Rightarrow> number \<Rightarrow> byte list \<Rightarrow> DataSink \<Rightarrow> number \<Rightarrow> nat \<Rightarrow> error + tick" where
  "gatherData cv currentTime block dataSink endTime currentIndex =
     (if js_ge currentTime endTime \<or> currentIndex > maxBufferIndex dataSink
      then (case clearData dataSink of
              Inl e \<Rightarrow> Inl e
            | Inr cleared \<Rightarrow>
                (case drawData cv cleared of
                   Inl e \<Rightarrow> Inl e
                 | Inr path \<Rightarrow> Inr (Finished cleared path)))
      else if currentIndex < length (rawData dataSink)
      then let f = rawData dataSink ! currentIndex;
               f' = f\<lparr>timeStart := currentTime,
                       frame.data := getByteTimeDomainData block (frame.data f)\<rparr>
           in Inr (Scheduled (dataSink\<lparr>rawData := (rawData dataSink)[currentIndex := f']\<rparr>)
                     (currentIndex + 1))
      else Inl TypeError)"

section \<open>Fixtures\<close>

text \<open>
  The scenario of the specification: capacity 3, frame width 2, sample rate 4, and the
  frames \<open>{t = 0, [10, 20]}\<close>, \<open>{t = 0.5, [30, 40]}\<close>, \<open>{t = 1.0, [50, 60]}\<close>.
\<close>

definition fixture :: DataSink where
  "fixture = \<lparr>sampleRate = Fin 4, bufferLength = 2, maxBufferIndex = 3,
     rawData = [\<lparr>timeStart = Fin 0, data = [10, 20]\<rparr>,
                \<lparr>timeStart = Fin (1 / 2), data = [30, 40]\<rparr>,
                \<lparr>timeStart = Fin 1, data = [50, 60]\<rparr>],
     data = []\<rparr>"

text \<open>
  The fixture after reconciliation, a canvas of the size the page gives it, and a block
  of the analyser.
\<close>

definition reconciled :: DataSink where
  "reconciled = fixture\<lparr>data := [Some 10, Some 20, Some 40, Some 60]\<rparr>"

definition fixtureCanvas :: canvas where
  "fixtureCanvas = \<lparr>width = 1000, height = 1000\<rparr>"

definition fixtureBlock :: "byte list" where
  "fixtureBlock = [128, 129, 130, 131]"

text \<open>A sink as \<^verbatim>\<open>createAnalyserWithDataSink\<close> returns it, for a context running at 48 kHz.\<close>

definition freshSink :: DataSink where
  "freshSink = snd (createAnalyserWithDataSink (Fin 48000))"

text \<open>The fixture before its third frame is populated.\<close>

definition fixturePartial :: DataSink where
  "fixturePartial = fixture\<lparr>rawData := (rawData fixture)[2 := \<lparr>timeStart = Fin (- 1), data = [0, 0]\<rparr>]\<rparr>"

text \<open>One frame of six samples, starting at 0, at 48 kHz.\<close>

definition rateFixture :: DataSink where
  "rateFixture = \<lparr>sampleRate = Fin 48000, bufferLength = 6, maxBufferIndex = 1,
     rawData = [\<lparr>timeStart = Fin 0, data = [1, 2, 3, 4, 5, 6]\<rparr>], data = []\<rparr>"

section \<open>Evaluating the arithmetic\<close>

text \<open>
  Rules with which the simplifier computes the floor of a rational numeral and the bit
  length of an integer numeral, and so evaluates the operators on concrete numbers.
\<close>

lemma floor_rat_numeral_div: "\<lfloor>numeral a / numeral b :: rat\<rfloor> = numeral a div numeral b"
  by (metis floor_divide_of_int_eq of_int_numeral)

lemma floor_rat_neg_numeral_div: "\<lfloor>- (numeral a / numeral b) :: rat\<rfloor> = - numeral a div numeral b"
  by (metis divide_minus_left floor_divide_of_int_eq of_int_neg_numeral of_int_numeral)

lemma ceiling_rat_numeral_div: "\<lceil>numeral a / numeral b :: rat\<rceil> = - (- numeral a div numeral b)"
  unfolding ceiling_def by (metis divide_minus_left floor_divide_of_int_eq of_int_neg_numeral of_int_numeral)

lemma floor_rat_one_div: "\<lfloor>1 / numeral b :: rat\<rfloor> = 1 div numeral b"
  by (metis floor_divide_of_int_eq of_int_1 of_int_numeral)

lemma ceiling_rat_one_div: "\<lceil>1 / numeral b :: rat\<rceil> = - (- 1 div numeral b)"
  unfolding ceiling_def by (metis divide_minus_left floor_divide_of_int_eq of_int_minus of_int_1 of_int_numeral)

lemma bitLength_0: "bitLength 0 = 0"
  by (simp add: bitLength.simps)

lemma bitLength_1: "bitLength 1 = 1"
  by (simp add: bitLength.simps)

lemma bitLength_numeral: "bitLength (numeral n) = Suc (bitLength (numeral n div 2))"
  by (subst bitLength.simps) simp

lemmas num_eval = js_add_def js_sub_def js_mul_def js_div_def js_lt_def js_le_def js_ge_def js_gt_def
  round64_def ilog2_def pow2_def roundHalfEven_def Let_def signedInf_def signedZero_def
  floor_rat_numeral_div floor_rat_neg_numeral_div ceiling_rat_numeral_div
  floor_rat_one_div ceiling_rat_one_div
  bitLength_0 bitLength_1 bitLength_numeral

section \<open>The scenario of the specification\<close>

lemma upt_0_2: "[0..<2] = [0, Suc 0]"
  by (simp add: eval_nat_numeral)

lemma fixture_arith:
  "js_div (Fin 1) (Fin 4) = Fin (1 / 4)"
  "js_mul (Fin 1) (Fin (1 / 4)) = Fin (1 / 4)"
  "js_mul (Fin 2) (Fin (1 / 4)) = Fin (1 / 2)"
  "js_sub (Fin 0) (Fin (1 / 4)) = Fin (- (1 / 4))"
  "js_add (Fin 0) (Fin (1 / 4)) = Fin (1 / 4)"
  "js_add (Fin (1 / 4)) (Fin (1 / 4)) = Fin (1 / 2)"
  "js_add (Fin (1 / 2)) (Fin (1 / 4)) = Fin (3 / 4)"
  "js_add (Fin (3 / 4)) (Fin (1 / 4)) = Fin 1"
  "js_add (Fin 1) (Fin (1 / 4)) = Fin (5 / 4)"
  "js_add (Fin (5 / 4)) (Fin (1 / 4)) = Fin (3 / 2)"
  "js_add (Fin (- (1 / 4))) (Fin (1 / 2)) = Fin (1 / 4)"
  "js_add (Fin (1 / 4)) (Fin (1 / 2)) = Fin (3 / 4)"
  "js_add (Fin (3 / 4)) (Fin (1 / 2)) = Fin (5 / 4)"
  "js_add (Fin (5 / 4)) (Fin (1 / 2)) = Fin (7 / 4)"
  "js_add (Fin (7 / 4)) (Fin (1 / 2)) = Fin (9 / 4)"
  by (simp_all add: num_eval)

lemma fixture_dataMap:
  "buildDataMap fixture =
     [(Fin 0, Some 10), (Fin (1 / 4), Some 20), (Fin (1 / 2), Some 30),
      (Fin (3 / 4), Some 40), (Fin 1, Some 50), (Fin (5 / 4), Some 60)]"
  by (simp add: buildDataMap_def fixture_def writeFrame_def writeSample_def setProp_def
      toKey_def u8At_def upt_0_2 fixture_arith js_lt_def)

lemma fixture_entries:
  "entries (buildDataMap fixture) =
     [(Fin 0, Some 10), (Fin 1, Some 50), (Fin (1 / 4), Some 20), (Fin (1 / 2), Some 30),
      (Fin (3 / 4), Some 40), (Fin (5 / 4), Some 60)]"
  by (simp add: fixture_dataMap entries_def isIndex_def indexOf_def arrayIndex_def floor_rat_numeral_div floor_rat_one_div)

lemma fixture_epsilon: "epsilonOf fixture = Fin (1 / 4)"
  by (simp add: epsilonOf_def fixture_def fixture_arith)

lemma fixture_window:
  "initWindow fixture \<lparr>timeStart = Fin 0, data = [10, 20]\<rparr> = (Fin (- (1 / 4)), Fin (1 / 4), [])"
  by (simp add: initWindow_def fixture_epsilon fixture_arith)

lemma fixture_first:
  "fold (thinStep (epsilonOf fixture)) (take 1 (entries (buildDataMap fixture)))
     (initWindow fixture \<lparr>timeStart = Fin 0, data = [10, 20]\<rparr>) = (Fin (1 / 4), Fin (3 / 4), [Some 10])"
  by (simp add: fixture_entries fixture_window fixture_epsilon thinStep_def parseFloat_def fixture_arith js_ge_def js_le_def)

lemma fixture_third:
  "fold (thinStep (epsilonOf fixture)) (take 3 (entries (buildDataMap fixture)))
     (initWindow fixture \<lparr>timeStart = Fin 0, data = [10, 20]\<rparr>) = (Fin (3 / 4), Fin (5 / 4), [Some 10, Some 20])"
  by (simp add: fixture_entries fixture_window fixture_epsilon thinStep_def parseFloat_def fixture_arith js_ge_def js_le_def eval_nat_numeral)

lemma fixture_all:
  "fold (thinStep (epsilonOf fixture)) (entries (buildDataMap fixture))
     (initWindow fixture \<lparr>timeStart = Fin 0, data = [10, 20]\<rparr>) = (Fin (7 / 4), Fin (9 / 4), [Some 10, Some 20, Some 40, Some 60])"
  by (simp add: fixture_entries fixture_window fixture_epsilon thinStep_def parseFloat_def fixture_arith js_ge_def js_le_def)

lemma fixture_clearData:
  "clearData fixture = Inr (fixture\<lparr>data := [Some 10, Some 20, Some 40, Some 60]\<rparr>)"
  using fixture_all by (simp add: clearData_def fixture_def)

text \<open>
  C1. On the fixture, \<^verbatim>\<open>clearData\<close> builds the mapping
  \<open>{0:10, 0.25:20, 0.5:30, 0.75:40, 1:50, 1.25:60}\<close> (listed by \<^verbatim>\<open>Object.entries\<close> with
  the array-index keys 0 and 1 first), starts the window at \<open>[-0.25, 0.25]\<close>, accepts key
  0 (output \<open>[10]\<close>, window \<open>[0.25, 0.75]\<close>), passes over key 1, accepts key 0.25 (output
  \<open>[10, 20]\<close>), and ends with the output \<open>[10, 20, 40, 60]\<close>.
\<close>

theorem C1_fixture_reconcile:
  "buildDataMap fixture =
     [(Fin 0, Some 10), (Fin (1 / 4), Some 20), (Fin (1 / 2), Some 30),
      (Fin (3 / 4), Some 40), (Fin 1, Some 50), (Fin (5 / 4), Some 60)]
   \<and> initWindow fixture \<lparr>timeStart = Fin 0, data = [10, 20]\<rparr>
       = (Fin (- (1 / 4)), Fin (1 / 4), [])
   \<and> take 3 (entries (buildDataMap fixture))
       = [(Fin 0, Some 10), (Fin 1, Some 50), (Fin (1 / 4), Some 20)]
   \<and> fold (thinStep (epsilonOf fixture)) (take 1 (entries (buildDataMap fixture)))
         (initWindow fixture \<lparr>timeStart = Fin 0, data = [10, 20]\<rparr>)
       = (Fin (1 / 4), Fin (3 / 4), [Some 10])
   \<and> fold (thinStep (epsilonOf fixture)) (take 3 (entries (buildDataMap fixture)))
         (initWindow fixture \<lparr>timeStart = Fin 0, data = [10, 20]\<rparr>)
       = (Fin (3 / 4), Fin (5 / 4), [Some 10, Some 20])
   \<and> clearData fixture = Inr (fixture\<lparr>data := [Some 10, Some 20, Some 40, Some 60]\<rparr>)"
proof -
  have "take 3 (entries (buildDataMap fixture))
          = [(Fin 0, Some 10), (Fin 1, Some 50), (Fin (1 / 4), Some 20)]"
    by (simp add: fixture_entries)
  then show ?thesis
    using fixture_dataMap fixture_window fixture_first fixture_third fixture_clearData
    by (simp only: simp_thms)
qed

section \<open>Allocation of the sink\<close>

lemma pushFrames_replicate:
  "pushFrames C W = replicate C \<lparr>timeStart = Fin (- 1), data = replicate W 0\<rparr>"
  unfolding pushFrames_def
  by (induction C) (simp_all add: replicate_append_same)

lemma createAnalyserWithDataSink_sink:
  "snd (createAnalyserWithDataSink sr) =
     \<lparr>sampleRate = sr, bufferLength = 1024, maxBufferIndex = 100,
      rawData = pushFrames 100 1024, data = []\<rparr>"
  by (simp add: createAnalyserWithDataSink_def frequencyBinCount_def)

lemma freshSink_eq:
  "freshSink = \<lparr>sampleRate = Fin 48000, bufferLength = 1024, maxBufferIndex = 100,
      rawData = replicate 100 \<lparr>timeStart = Fin (- 1), data = replicate 1024 0\<rparr>, data = []\<rparr>"
  by (simp add: freshSink_def createAnalyserWithDataSink_sink pushFrames_replicate)

text \<open>
  C8. The allocation loop, run for a capacity \<open>C\<close> and a frame width \<open>W\<close>, leaves exactly
  \<open>C\<close> frames, each with \<open>timeStart = -1\<close> and \<open>W\<close> zero bytes; the sink that
  \<^verbatim>\<open>createAnalyserWithDataSink\<close> returns holds the frames of that loop for its own
  capacity and frame width, which the source fixes at 100 and 1024.
\<close>

theorem C8_initialize:
  "pushFrames C W = replicate C \<lparr>timeStart = Fin (- 1), data = replicate W 0\<rparr>
   \<and> length (pushFrames C W) = C
   \<and> rawData (snd (createAnalyserWithDataSink sr))
       = pushFrames (maxBufferIndex (snd (createAnalyserWithDataSink sr)))
           (bufferLength (snd (createAnalyserWithDataSink sr)))
   \<and> maxBufferIndex (snd (createAnalyserWithDataSink sr)) = 100
   \<and> bufferLength (snd (createAnalyserWithDataSink sr)) = 1024"
  by (simp add: pushFrames_replicate createAnalyserWithDataSink_sink)

section \<open>What the reconciler leaves alone, and the sink without a populated frame\<close>

lemma clearData_Inr:
  "clearData ds = Inr ds' \<Longrightarrow> \<exists>out. ds' = ds\<lparr>data := out\<rparr>"
  by (auto simp: clearData_def Let_def split: list.splits prod.splits)

lemma clearData_no_frames: "rawData ds = [] \<Longrightarrow> clearData ds = Inl TypeError"
  by (simp add: clearData_def)

lemma reconciled_clearData: "clearData fixture = Inr reconciled"
  using fixture_clearData by (simp add: reconciled_def)

text \<open>
  C10. \<^verbatim>\<open>clearData\<close> assigns \<^verbatim>\<open>dataSink.data\<close> only: the sample rate, the frame width,
  the capacity and every frame are as before.
\<close>

theorem C10_reconcile_frame:
  "clearData ds = Inr ds' \<Longrightarrow>
     sampleRate ds' = sampleRate ds \<and> bufferLength ds' = bufferLength ds
     \<and> maxBufferIndex ds' = maxBufferIndex ds \<and> rawData ds' = rawData ds"
  by (auto dest: clearData_Inr)

text \<open>C10 on the fixture.\<close>

theorem C10_reconcile_frame_witness:
  "clearData fixture = Inr reconciled
   \<and> sampleRate reconciled = sampleRate fixture
   \<and> bufferLength reconciled = bufferLength fixture
   \<and> maxBufferIndex reconciled = maxBufferIndex fixture
   \<and> rawData reconciled = rawData fixture"
  using C10_reconcile_frame [OF reconciled_clearData] reconciled_clearData by simp

lemma writeFrame_skip: "js_lt (timeStart f) (Fin 0) \<Longrightarrow> writeFrame inc n f m = m"
  by (simp add: writeFrame_def)

lemma fold_writeFrame_skip:
  "\<forall>f\<in>set fs. js_lt (timeStart f) (Fin 0) \<Longrightarrow> fold (writeFrame inc n) fs m = m"
  by (induction fs arbitrary: m) (simp_all add: writeFrame_skip)

lemma entries_Nil: "entries [] = []"
  by (simp add: entries_def)

lemma js_lt_minus_one: "js_lt (Fin (- 1)) (Fin 0)"
  by (simp add: js_lt_def)

text \<open>
  C3. When every frame has \<open>timeStart < 0\<close>, \<^verbatim>\<open>frames[0]\<close> among them, \<^verbatim>\<open>clearData\<close>
  returns normally and the merged samples are empty.
\<close>

theorem C3_no_populated_frame:
  assumes "rawData ds \<noteq> []"
    and "\<forall>f\<in>set (rawData ds). js_lt (timeStart f) (Fin 0)"
  shows "clearData ds = Inr (ds\<lparr>data := []\<rparr>)"
proof -
  have "buildDataMap ds = []"
    using assms(2) by (simp add: buildDataMap_def fold_writeFrame_skip)
  with assms(1) show ?thesis
    by (cases "rawData ds") (simp_all add: clearData_def entries_Nil initWindow_def)
qed

text \<open>C3 on the sink that \<^verbatim>\<open>createAnalyserWithDataSink\<close> returns.\<close>

theorem C3_no_populated_frame_witness:
  "rawData freshSink \<noteq> []
   \<and> clearData freshSink = Inr (freshSink\<lparr>data := []\<rparr>)"
proof -
  have a: "rawData freshSink \<noteq> []"
    by (simp add: freshSink_eq)
  have b: "\<forall>f\<in>set (rawData freshSink). js_lt (timeStart f) (Fin 0)"
    by (simp add: freshSink_eq js_lt_minus_one)
  show ?thesis
    using a C3_no_populated_frame [OF a b] by simp
qed

section \<open>The renderer\<close>

lemma fold_lineStep:
  "fold (lineStep c d inc) [a..<a + k] (x, path) =
     (((\<lambda>x. js_add x inc) ^^ k) x,
      path @ map (\<lambda>i. LineTo (((\<lambda>x. js_add x inc) ^^ (i - a)) x) (getY c (dataAt d i))) [a..<a + k])"
proof (induction k)
  case 0
  show ?case by simp
next
  case (Suc k)
  have "[a..<a + Suc k] = [a..<a + k] @ [a + k]"
    by simp
  then show ?case
    using Suc by (simp add: lineStep_def)
qed

text \<open>
  The path of \<^verbatim>\<open>drawData\<close> for non-empty merged samples: it starts at
  \<open>(0, data[0] * height / 256)\<close>, left of the padding, and goes on with one line to
  \<open>(xAt i, data[i] * height / 256)\<close> for each \<open>i\<close> from 1. The second vertex is at the
  padding, and each further one lies one increment \<open>(width - padding) / n\<close> to the right
  of the one before, the sums being rounded.
\<close>

lemma drawData_polyline:
  assumes "DataSink.data ds \<noteq> []"
  shows "drawData (Some c) ds =
           Inr (MoveTo (Fin 0) (getY c (DataSink.data ds ! 0))
                # map (\<lambda>i. LineTo (xAt c (length (DataSink.data ds)) i) (getY c (DataSink.data ds ! i)))
                    [1..<length (DataSink.data ds)])"
proof -
  let ?d = "DataSink.data ds"
  let ?inc = "xIncrementOf c (length ?d)"
  obtain k where k: "length ?d = 1 + k"
    using assms by (cases ?d) auto
  have "fold (lineStep c ?d ?inc) [1..<1 + k] (cPlotPadding, [MoveTo (Fin 0) (getY c (dataAt ?d 0))])
        = (((\<lambda>x. js_add x ?inc) ^^ k) cPlotPadding,
           [MoveTo (Fin 0) (getY c (dataAt ?d 0))]
           @ map (\<lambda>i. LineTo (((\<lambda>x. js_add x ?inc) ^^ (i - 1)) cPlotPadding) (getY c (dataAt ?d i))) [1..<1 + k])"
    by (rule fold_lineStep)
  moreover have "map (\<lambda>i. LineTo (((\<lambda>x. js_add x ?inc) ^^ (i - 1)) cPlotPadding) (getY c (dataAt ?d i))) [1..<1 + k]
      = map (\<lambda>i. LineTo (xAt c (length ?d) i) (getY c (?d ! i))) [1..<1 + k]"
    using k by (auto simp: xAt_def dataAt_def)
  moreover have "dataAt ?d 0 = ?d ! 0"
    using assms by (simp add: dataAt_def)
  ultimately show ?thesis
    using k by (simp add: drawData_def getCanvas_def Let_def)
qed

lemma fixture_draw_arith:
  "js_div (js_sub (Fin 1000) (Fin 40)) (Fin 4) = Fin 240"
  "js_add (Fin 40) (Fin 240) = Fin 280"
  "js_add (Fin 280) (Fin 240) = Fin 520"
  "js_add (Fin 520) (Fin 240) = Fin 760"
  "js_div (js_mul (Fin 10) (Fin 1000)) (Fin 256) = Fin (625 / 16)"
  "js_div (js_mul (Fin 20) (Fin 1000)) (Fin 256) = Fin (625 / 8)"
  "js_div (js_mul (Fin 40) (Fin 1000)) (Fin 256) = Fin (625 / 4)"
  "js_div (js_mul (Fin 60) (Fin 1000)) (Fin 256) = Fin (1875 / 8)"
  "js_sub (Fin 40) (Fin 0) = Fin 40"
  by (simp_all add: num_eval)

lemma upt_1_4: "[1..<4] = [1, 2, 3]"
  by (simp add: upt_rec)

lemma reconciled_draw:
  "drawData (Some fixtureCanvas) reconciled =
     Inr [MoveTo (Fin 0) (Fin (625 / 16)), LineTo (Fin 40) (Fin (625 / 8)),
          LineTo (Fin 280) (Fin (625 / 4)), LineTo (Fin 520) (Fin (1875 / 8))]"
  by (simp add: drawData_def getCanvas_def reconciled_def fixtureCanvas_def lineStep_def getY_def
      xIncrementOf_def dataAt_def toNumber_def cPlotPadding_def upt_1_4 ofNat_def fixture_draw_arith)

text \<open>
  C9. The vertical coordinates are \<open>data[i] * height / 256\<close>, as claimed, but the
  horizontal ones are not evenly distributed across the usable width: for the four
  samples of the reconciled fixture on a canvas 1000 wide the increment is 240, yet the
  vertices are at \<open>x = 0, 40, 280, 520\<close>. The first vertex is left of the padding,
  where the axis stands, and the first two vertices are 40 apart, not 240.
\<close>

theorem C9_failing_input:
  "drawData (Some fixtureCanvas) reconciled =
     Inr [MoveTo (Fin 0) (Fin (625 / 16)), LineTo (Fin 40) (Fin (625 / 8)),
          LineTo (Fin 280) (Fin (625 / 4)), LineTo (Fin 520) (Fin (1875 / 8))]
   \<and> xIncrementOf fixtureCanvas (length (DataSink.data reconciled)) = Fin 240
   \<and> js_sub (Fin 40) (Fin 0) = Fin 40
   \<and> js_lt (Fin 0) cPlotPadding"
  using reconciled_draw
  by (simp add: xIncrementOf_def reconciled_def fixtureCanvas_def cPlotPadding_def ofNat_def
      fixture_draw_arith js_lt_def)

section \<open>The sampling loop\<close>

lemma fixture_clock:
  "\<not> js_ge (Fin (1 / 2)) (Fin 1)" "js_lt (Fin (1 / 2)) (Fin 1)" "js_ge (Fin 1) (Fin 1)"
  by (simp_all add: js_ge_def js_le_def js_lt_def)

lemma gatherData_stop:
  assumes "js_ge currentTime endTime \<or> currentIndex > maxBufferIndex ds"
  shows "gatherData cv currentTime block ds endTime currentIndex =
           (case clearData ds of
              Inl e \<Rightarrow> Inl e
            | Inr cleared \<Rightarrow>
                (case drawData cv cleared of
                   Inl e \<Rightarrow> Inl e
                 | Inr path \<Rightarrow> Inr (Finished cleared path)))"
  using assms by (simp add: gatherData_def)

lemma gatherData_stop_result:
  assumes "js_ge currentTime endTime \<or> currentIndex > maxBufferIndex ds"
    and "gatherData cv currentTime block ds endTime currentIndex = Inr r"
  shows "\<exists>cleared path. r = Finished cleared path \<and> clearData ds = Inr cleared
           \<and> drawData cv cleared = Inr path \<and> rawData cleared = rawData ds"
  using assms(2) unfolding gatherData_stop [OF assms(1)]
  by (auto split: sum.splits dest: clearData_Inr)

lemma gatherData_continue:
  assumes "\<not> (js_ge currentTime endTime \<or> currentIndex > maxBufferIndex ds)"
    and "currentIndex < length (rawData ds)"
  shows "gatherData cv currentTime block ds endTime currentIndex =
           Inr (Scheduled
                 (ds\<lparr>rawData := (rawData ds)[currentIndex :=
                        \<lparr>timeStart = currentTime,
                         data = getByteTimeDomainData block (frame.data (rawData ds ! currentIndex))\<rparr>]\<rparr>)
                 (currentIndex + 1))"
  using assms by (cases "rawData ds ! currentIndex") (simp add: gatherData_def Let_def)

lemma getByteTimeDomainData_take:
  "length array \<le> length block \<Longrightarrow> getByteTimeDomainData block array = take (length array) block"
  by (simp add: getByteTimeDomainData_def)

text \<open>
  C2, as the code has it. At \<open>index = capacity\<close>, with the clock before the deadline, the
  test \<open>index > capacity\<close> does not end the loop; the tick then addresses
  \<^verbatim>\<open>frames[capacity]\<close>, which does not exist, and faults with a TypeError: nothing is
  written, no tick is scheduled, and neither the reconciler nor the renderer runs.
\<close>

theorem C2_tick_at_capacity:
  assumes "length (rawData ds) = maxBufferIndex ds"
    and "\<not> js_ge currentTime endTime"
  shows "gatherData cv currentTime block ds endTime (maxBufferIndex ds) = Inl TypeError"
  using assms by (simp add: gatherData_def)

text \<open>C2 on the fixture, at index 3.\<close>

theorem C2_tick_at_capacity_witness:
  "length (rawData fixture) = maxBufferIndex fixture
   \<and> \<not> js_ge (Fin (1 / 2)) (Fin 1)
   \<and> gatherData (Some fixtureCanvas) (Fin (1 / 2)) fixtureBlock fixture (Fin 1) (maxBufferIndex fixture)
       = Inl TypeError"
proof -
  have a: "length (rawData fixture) = maxBufferIndex fixture"
    by (simp add: fixture_def)
  show ?thesis
    using a fixture_clock(1) C2_tick_at_capacity [OF a fixture_clock(1)] by simp
qed

text \<open>
  C2 as stated fails: on a fresh sink of 100 frames, the tick with index 100 at clock
  0.5, before the deadline 1, is not ended by the bound test, and it writes nothing into
  \<^verbatim>\<open>frames[100]\<close>: it faults.
\<close>

theorem C2_counterexample:
  "js_lt (Fin (1 / 2)) (Fin 1)
   \<and> \<not> (100 > maxBufferIndex freshSink)
   \<and> length (rawData freshSink) = 100
   \<and> gatherData (Some fixtureCanvas) (Fin (1 / 2)) (replicate 2048 128) freshSink (Fin 1) 100
       = Inl TypeError"
  by (simp add: freshSink_eq gatherData_def fixture_clock)

lemma clearData_returns: "rawData ds \<noteq> [] \<Longrightarrow> \<exists>cleared. clearData ds = Inr cleared"
  by (cases "rawData ds") (auto simp: clearData_def split: prod.splits)

lemma drawData_returns: "\<exists>path. drawData (Some c) ds = Inr path"
  by (simp add: drawData_def getCanvas_def Let_def)

lemma gatherData_stop_returns:
  assumes "js_ge currentTime endTime \<or> currentIndex > maxBufferIndex ds"
    and "rawData ds \<noteq> []"
  shows "\<exists>cleared path. gatherData (Some c) currentTime block ds endTime currentIndex
             = Inr (Finished cleared path)
           \<and> clearData ds = Inr cleared \<and> drawData (Some c) cleared = Inr path
           \<and> rawData cleared = rawData ds"
proof -
  obtain cleared where cl: "clearData ds = Inr cleared"
    using clearData_returns [OF assms(2)] by blast
  obtain path where dr: "drawData (Some c) cleared = Inr path"
    using drawData_returns by blast
  have "gatherData (Some c) currentTime block ds endTime currentIndex = Inr (Finished cleared path)"
    unfolding gatherData_stop [OF assms(1)] by (simp add: cl dr)
  moreover have "rawData cleared = rawData ds"
    using clearData_Inr [OF cl] by auto
  ultimately show ?thesis
    using cl dr by blast
qed

text \<open>
  C7, as the code has it. A tick whose clock has reached the deadline, or whose index
  exceeds the capacity, writes no frame and schedules nothing: it runs \<^verbatim>\<open>clearData\<close> and
  then \<^verbatim>\<open>drawData\<close> on the sink that \<^verbatim>\<open>clearData\<close> left, and its outcome is theirs; with
  a frame in the sink and a canvas on the page it returns, the frames as they were. Any
  other tick whose index is that of a frame stores the clock in
  \<^verbatim>\<open>frames[index].timeStart\<close>, fills \<^verbatim>\<open>frames[index].data\<close> from the analyser (the first
  \<open>frameWidth\<close> bytes of its block), leaves everything else as it is, and schedules one
  tick with \<open>index + 1\<close>.
\<close>

theorem C7_tick_cases:
  "(js_ge currentTime endTime \<or> currentIndex > maxBufferIndex ds \<longrightarrow>
      gatherData cv currentTime block ds endTime currentIndex
        = (case clearData ds of
             Inl e \<Rightarrow> Inl e
           | Inr cleared \<Rightarrow>
               (case drawData cv cleared of
                  Inl e \<Rightarrow> Inl e
                | Inr path \<Rightarrow> Inr (Finished cleared path)))
      \<and> (\<forall>ds' i. gatherData cv currentTime block ds endTime currentIndex \<noteq> Inr (Scheduled ds' i))
      \<and> (\<forall>r. gatherData cv currentTime block ds endTime currentIndex = Inr r \<longrightarrow>
           (\<exists>cleared path. r = Finished cleared path \<and> clearData ds = Inr cleared
              \<and> drawData cv cleared = Inr path \<and> rawData cleared = rawData ds))
      \<and> (rawData ds \<noteq> [] \<longrightarrow>
           (\<forall>c. cv = Some c \<longrightarrow>
              (\<exists>cleared path. gatherData cv currentTime block ds endTime currentIndex
                                 = Inr (Finished cleared path)
                 \<and> clearData ds = Inr cleared \<and> drawData cv cleared = Inr path
                 \<and> rawData cleared = rawData ds))))
   \<and> (\<not> (js_ge currentTime endTime \<or> currentIndex > maxBufferIndex ds)
        \<and> currentIndex < length (rawData ds) \<longrightarrow>
      (\<exists>ds'. gatherData cv currentTime block ds endTime currentIndex
                = Inr (Scheduled ds' (currentIndex + 1))
         \<and> length (rawData ds') = length (rawData ds)
         \<and> timeStart (rawData ds' ! currentIndex) = currentTime
         \<and> frame.data (rawData ds' ! currentIndex)
             = getByteTimeDomainData block (frame.data (rawData ds ! currentIndex))
         \<and> (length (frame.data (rawData ds ! currentIndex)) \<le> length block \<longrightarrow>
              frame.data (rawData ds' ! currentIndex)
                = take (length (frame.data (rawData ds ! currentIndex))) block)
         \<and> (\<forall>j. j \<noteq> currentIndex \<longrightarrow> rawData ds' ! j = rawData ds ! j)
         \<and> sampleRate ds' = sampleRate ds \<and> bufferLength ds' = bufferLength ds
         \<and> maxBufferIndex ds' = maxBufferIndex ds \<and> DataSink.data ds' = DataSink.data ds))"
proof (intro conjI impI)
  assume stop: "js_ge currentTime endTime \<or> currentIndex > maxBufferIndex ds"
  show "gatherData cv currentTime block ds endTime currentIndex
        = (case clearData ds of
             Inl e \<Rightarrow> Inl e
           | Inr cleared \<Rightarrow>
               (case drawData cv cleared of
                  Inl e \<Rightarrow> Inl e
                | Inr path \<Rightarrow> Inr (Finished cleared path)))"
    using stop by (rule gatherData_stop)
  show res: "\<forall>r. gatherData cv currentTime block ds endTime currentIndex = Inr r \<longrightarrow>
         (\<exists>cleared path. r = Finished cleared path \<and> clearData ds = Inr cleared
            \<and> drawData cv cleared = Inr path \<and> rawData cleared = rawData ds)"
    using stop gatherData_stop_result by blast
  show "\<forall>ds' i. gatherData cv currentTime block ds endTime currentIndex \<noteq> Inr (Scheduled ds' i)"
    using res by fastforce
  assume "rawData ds \<noteq> []"
  then show "\<forall>c. cv = Some c \<longrightarrow>
              (\<exists>cleared path. gatherData cv currentTime block ds endTime currentIndex
                                 = Inr (Finished cleared path)
                 \<and> clearData ds = Inr cleared \<and> drawData cv cleared = Inr path
                 \<and> rawData cleared = rawData ds)"
    using stop gatherData_stop_returns by blast
next
  assume a: "\<not> (js_ge currentTime endTime \<or> currentIndex > maxBufferIndex ds)
        \<and> currentIndex < length (rawData ds)"
  show "\<exists>ds'. gatherData cv currentTime block ds endTime currentIndex
                = Inr (Scheduled ds' (currentIndex + 1))
         \<and> length (rawData ds') = length (rawData ds)
         \<and> timeStart (rawData ds' ! currentIndex) = currentTime
         \<and> frame.data (rawData ds' ! currentIndex)
             = getByteTimeDomainData block (frame.data (rawData ds ! currentIndex))
         \<and> (length (frame.data (rawData ds ! currentIndex)) \<le> length block \<longrightarrow>
              frame.data (rawData ds' ! currentIndex)
                = take (length (frame.data (rawData ds ! currentIndex))) block)
         \<and> (\<forall>j. j \<noteq> currentIndex \<longrightarrow> rawData ds' ! j = rawData ds ! j)
         \<and> sampleRate ds' = sampleRate ds \<and> bufferLength ds' = bufferLength ds
         \<and> maxBufferIndex ds' = maxBufferIndex ds \<and> DataSink.data ds' = DataSink.data ds"
    using a by (simp add: gatherData_continue getByteTimeDomainData_take)
qed

text \<open>
  C7 on the fixture: the tick with index 4, above the capacity 3, at clock 0.5 before the
  deadline, and the tick at clock 1, the deadline, both end the loop with the reconciled
  sink and its path; the tick at clock 0.5 with index 1 fills frame 1 and schedules
  index 2.
\<close>

theorem C7_tick_cases_witness:
  "\<not> js_ge (Fin (1 / 2)) (Fin 1) \<and> 4 > maxBufferIndex fixture
   \<and> gatherData (Some fixtureCanvas) (Fin (1 / 2)) fixtureBlock fixture (Fin 1) 4
       = Inr (Finished reconciled
               [MoveTo (Fin 0) (Fin (625 / 16)), LineTo (Fin 40) (Fin (625 / 8)),
                LineTo (Fin 280) (Fin (625 / 4)), LineTo (Fin 520) (Fin (1875 / 8))])
   \<and> js_ge (Fin 1) (Fin 1)
   \<and> gatherData (Some fixtureCanvas) (Fin 1) fixtureBlock fixture (Fin 1) 1
       = Inr (Finished reconciled
               [MoveTo (Fin 0) (Fin (625 / 16)), LineTo (Fin 40) (Fin (625 / 8)),
                LineTo (Fin 280) (Fin (625 / 4)), LineTo (Fin 520) (Fin (1875 / 8))])
   \<and> rawData reconciled = rawData fixture
   \<and> \<not> (js_ge (Fin (1 / 2)) (Fin 1) \<or> 1 > maxBufferIndex fixture)
   \<and> 1 < length (rawData fixture)
   \<and> (\<exists>ds'. gatherData (Some fixtureCanvas) (Fin (1 / 2)) fixtureBlock fixture (Fin 1) 1
                = Inr (Scheduled ds' 2)
          \<and> timeStart (rawData ds' ! 1) = Fin (1 / 2)
          \<and> frame.data (rawData ds' ! 1) = [128, 129]
          \<and> rawData ds' ! 0 = rawData fixture ! 0)"
proof -
  let ?path = "[MoveTo (Fin 0) (Fin (625 / 16)), LineTo (Fin 40) (Fin (625 / 8)),
                LineTo (Fin 280) (Fin (625 / 4)), LineTo (Fin 520) (Fin (1875 / 8))]"
  let ?run = "case clearData fixture of
                Inl e \<Rightarrow> Inl e
              | Inr cleared \<Rightarrow>
                  (case drawData (Some fixtureCanvas) cleared of
                     Inl e \<Rightarrow> Inl e
                   | Inr path \<Rightarrow> Inr (Finished cleared path))"
  have run: "?run = Inr (Finished reconciled ?path)"
    by (simp add: reconciled_clearData reconciled_draw)
  have h0: "4 > maxBufferIndex fixture"
    by (simp add: fixture_def)
  then have stop0: "js_ge (Fin (1 / 2)) (Fin 1) \<or> 4 > maxBufferIndex fixture"
    by (rule disjI2)
  have "gatherData (Some fixtureCanvas) (Fin (1 / 2)) fixtureBlock fixture (Fin 1) 4 = ?run"
    by (rule C7_tick_cases [where currentTime = "Fin (1 / 2)" and endTime = "Fin 1"
          and currentIndex = 4 and ds = fixture and cv = "Some fixtureCanvas"
          and block = fixtureBlock, THEN conjunct1, THEN mp, OF stop0, THEN conjunct1])
  then have r0: "gatherData (Some fixtureCanvas) (Fin (1 / 2)) fixtureBlock fixture (Fin 1) 4
              = Inr (Finished reconciled ?path)"
    using run by (rule trans)
  have stop1: "js_ge (Fin 1) (Fin 1) \<or> 1 > maxBufferIndex fixture"
    using fixture_clock(3) by (rule disjI1)
  have "gatherData (Some fixtureCanvas) (Fin 1) fixtureBlock fixture (Fin 1) 1 = ?run"
    by (rule C7_tick_cases [where currentTime = "Fin 1" and endTime = "Fin 1"
          and currentIndex = 1 and ds = fixture and cv = "Some fixtureCanvas"
          and block = fixtureBlock, THEN conjunct1, THEN mp, OF stop1, THEN conjunct1])
  then have r1: "gatherData (Some fixtureCanvas) (Fin 1) fixtureBlock fixture (Fin 1) 1
              = Inr (Finished reconciled ?path)"
    using run by (rule trans)
  have s1: "rawData reconciled = rawData fixture"
    by (simp add: reconciled_def)
  have h2: "\<not> (js_ge (Fin (1 / 2)) (Fin 1) \<or> 1 > maxBufferIndex fixture)"
    by (simp add: fixture_clock fixture_def)
  have h3: "1 < length (rawData fixture)"
    by (simp add: fixture_def)
  have d: "frame.data (rawData fixture ! 1) = [30, 40]"
    by (simp add: fixture_def)
  obtain ds' where ds':
    "gatherData (Some fixtureCanvas) (Fin (1 / 2)) fixtureBlock fixture (Fin 1) 1
       = Inr (Scheduled ds' (1 + 1))"
    "timeStart (rawData ds' ! 1) = Fin (1 / 2)"
    "frame.data (rawData ds' ! 1)
       = getByteTimeDomainData fixtureBlock (frame.data (rawData fixture ! 1))"
    "\<forall>j. j \<noteq> 1 \<longrightarrow> rawData ds' ! j = rawData fixture ! j"
    using C7_tick_cases [where currentTime = "Fin (1 / 2)" and endTime = "Fin 1"
        and currentIndex = 1 and ds = fixture and cv = "Some fixtureCanvas"
        and block = fixtureBlock, THEN conjunct2, THEN mp, OF conjI [OF h2 h3]]
    by blast
  have "frame.data (rawData ds' ! 1) = [128, 129]"
    unfolding ds'(3) d by (simp add: fixtureBlock_def getByteTimeDomainData_def)
  moreover have "rawData ds' ! 0 = rawData fixture ! 0"
    using ds'(4) by simp
  moreover have "gatherData (Some fixtureCanvas) (Fin (1 / 2)) fixtureBlock fixture (Fin 1) 1
       = Inr (Scheduled ds' 2)"
    using ds'(1) by simp
  ultimately have "\<exists>ds'. gatherData (Some fixtureCanvas) (Fin (1 / 2)) fixtureBlock fixture (Fin 1) 1
                = Inr (Scheduled ds' 2)
          \<and> timeStart (rawData ds' ! 1) = Fin (1 / 2)
          \<and> frame.data (rawData ds' ! 1) = [128, 129]
          \<and> rawData ds' ! 0 = rawData fixture ! 0"
    using ds'(2) by blast
  with r0 r1 s1 h0 h2 h3 fixture_clock(1) fixture_clock(3) show ?thesis
    by (intro conjI)
qed

text \<open>
  C7 as stated fails at \<open>index = capacity\<close>: on the fixture, the tick with index 3 at
  clock 0.5 meets neither stop condition, and it neither fills a frame nor schedules a
  tick: it faults.
\<close>

theorem C7_counterexample:
  "\<not> (js_ge (Fin (1 / 2)) (Fin 1) \<or> 3 > maxBufferIndex fixture)
   \<and> maxBufferIndex fixture = 3 \<and> length (rawData fixture) = 3
   \<and> gatherData (Some fixtureCanvas) (Fin (1 / 2)) fixtureBlock fixture (Fin 1) 3 = Inl TypeError"
  by (simp add: gatherData_def fixture_clock fixture_def)

section \<open>The size of the merged samples\<close>

lemma js_ge_NaN: "\<not> js_ge NaN x"
  by (simp add: js_ge_def js_le_def)

lemma js_add_NaN: "js_add NaN x = NaN"
  by (simp add: js_add_def)

lemma toKey_NaN: "toKey NaN = NaN"
  by (simp add: toKey_def)

lemma js_compare_zero: "js_lt x (Fin 0) \<or> js_ge x (Fin 0) \<or> x = NaN"
  by (cases x) (auto simp: js_lt_def js_ge_def js_le_def)

lemma thinStep_length:
  "length (snd (snd (thinStep eps e st)))
     \<le> length (snd (snd st)) + (if fst e \<noteq> NaN then 1 else 0)"
  by (cases e; cases st) (auto simp: thinStep_def parseFloat_def js_ge_NaN)

lemma fold_thinStep_length:
  "length (snd (snd (fold (thinStep eps) es st)))
     \<le> length (snd (snd st)) + length (filter (\<lambda>e. fst e \<noteq> NaN) es)"
proof (induction es arbitrary: st)
  case Nil
  show ?case by simp
next
  case (Cons e es)
  have "length (snd (snd (fold (thinStep eps) es (thinStep eps e st))))
          \<le> length (snd (snd (thinStep eps e st))) + length (filter (\<lambda>e. fst e \<noteq> NaN) es)"
    by (rule Cons.IH)
  also have "\<dots> \<le> length (snd (snd st)) + (if fst e \<noteq> NaN then 1 else 0)
                    + length (filter (\<lambda>e. fst e \<noteq> NaN) es)"
    using thinStep_length [of eps e st] by simp
  finally show ?case by (auto split: if_splits)
qed

lemma mset_entries: "mset (entries m) = mset m"
  by (simp add: entries_def)

lemma length_filter_entries: "length (filter Q (entries m)) = length (filter Q m)"
proof -
  have "mset (filter Q (entries m)) = mset (filter Q m)"
    by (simp add: mset_entries)
  then show ?thesis
    by (metis size_mset)
qed

lemma update_count:
  "length (filter (\<lambda>e. fst e \<noteq> NaN) (AList.update k v m))
     \<le> length (filter (\<lambda>e. fst e \<noteq> NaN) m) + (if k \<noteq> NaN then 1 else 0)"
  by (induction m) auto

lemma writeSample_apply:
  "writeSample inc d j (t, m) = (js_add t inc, setProp (toKey t) (u8At d j) m)"
  by (simp add: writeSample_def)

lemma writeSample_count:
  "length (filter (\<lambda>e. fst e \<noteq> NaN) (snd (fold (writeSample inc d) js (t, m))))
     \<le> length (filter (\<lambda>e. fst e \<noteq> NaN) m) + length js"
proof (induction js arbitrary: t m)
  case Nil
  show ?case by simp
next
  case (Cons j js)
  have "length (filter (\<lambda>e. fst e \<noteq> NaN)
           (snd (fold (writeSample inc d) js (js_add t inc, setProp (toKey t) (u8At d j) m))))
        \<le> length (filter (\<lambda>e. fst e \<noteq> NaN) (setProp (toKey t) (u8At d j) m)) + length js"
    by (rule Cons.IH)
  moreover have "length (filter (\<lambda>e. fst e \<noteq> NaN) (setProp (toKey t) (u8At d j) m))
        \<le> length (filter (\<lambda>e. fst e \<noteq> NaN) m) + 1"
    using update_count [of "toKey t" "u8At d j" m] by (simp add: setProp_def split: if_splits)
  ultimately show ?case
    by (simp add: writeSample_apply)
qed

lemma writeSample_count_NaN:
  "length (filter (\<lambda>e. fst e \<noteq> NaN) (snd (fold (writeSample inc d) js (NaN, m))))
     \<le> length (filter (\<lambda>e. fst e \<noteq> NaN) m)"
proof (induction js arbitrary: m)
  case Nil
  show ?case by simp
next
  case (Cons j js)
  have "length (filter (\<lambda>e. fst e \<noteq> NaN)
           (snd (fold (writeSample inc d) js (NaN, setProp NaN (u8At d j) m))))
        \<le> length (filter (\<lambda>e. fst e \<noteq> NaN) (setProp NaN (u8At d j) m))"
    by (rule Cons.IH)
  moreover have "length (filter (\<lambda>e. fst e \<noteq> NaN) (setProp NaN (u8At d j) m))
        \<le> length (filter (\<lambda>e. fst e \<noteq> NaN) m)"
    using update_count [of NaN "u8At d j" m] by (simp add: setProp_def)
  ultimately show ?case
    by (simp add: writeSample_apply js_add_NaN toKey_NaN)
qed

lemma writeFrame_count:
  "length (filter (\<lambda>e. fst e \<noteq> NaN) (writeFrame inc n f m))
     \<le> length (filter (\<lambda>e. fst e \<noteq> NaN) m) + (if js_ge (timeStart f) (Fin 0) then n else 0)"
proof -
  consider "js_lt (timeStart f) (Fin 0)" | "\<not> js_lt (timeStart f) (Fin 0)" "timeStart f = NaN"
    | "\<not> js_lt (timeStart f) (Fin 0)" "js_ge (timeStart f) (Fin 0)"
    using js_compare_zero by blast
  then show ?thesis
  proof cases
    case 1
    then show ?thesis by (simp add: writeFrame_def)
  next
    case 2
    then show ?thesis
      using writeSample_count_NaN [of inc "frame.data f" "[0..<n]" m]
      by (simp add: writeFrame_def)
  next
    case 3
    then show ?thesis
      using writeSample_count [of inc "frame.data f" "[0..<n]" "timeStart f" m]
      by (simp add: writeFrame_def)
  qed
qed

lemma fold_writeFrame_count:
  "length (filter (\<lambda>e. fst e \<noteq> NaN) (fold (writeFrame inc n) fs m))
     \<le> length (filter (\<lambda>e. fst e \<noteq> NaN) m)
        + length (filter (\<lambda>f. js_ge (timeStart f) (Fin 0)) fs) * n"
proof (induction fs arbitrary: m)
  case Nil
  show ?case by simp
next
  case (Cons f fs)
  have "length (filter (\<lambda>e. fst e \<noteq> NaN) (fold (writeFrame inc n) fs (writeFrame inc n f m)))
        \<le> length (filter (\<lambda>e. fst e \<noteq> NaN) (writeFrame inc n f m))
           + length (filter (\<lambda>f. js_ge (timeStart f) (Fin 0)) fs) * n"
    by (rule Cons.IH)
  then show ?case
    using writeFrame_count [of inc n f m] by (simp split: if_splits)
qed

text \<open>
  C5. The merged samples are at most as many as the populated frames (the frames with
  \<open>timeStart \<ge> 0\<close>) times the frame width. A frame whose \<open>timeStart\<close> is \<open>NaN\<close> is
  not skipped by the loop, but every key it writes is \<open>NaN\<close>, which no window accepts.
\<close>

theorem C5_output_bound:
  assumes "clearData ds = Inr ds'"
  shows "length (DataSink.data ds')
           \<le> length (filter (\<lambda>f. js_ge (timeStart f) (Fin 0)) (rawData ds)) * bufferLength ds"
proof -
  obtain f0 fs where fr: "rawData ds = f0 # fs"
    using assms by (cases "rawData ds") (simp_all add: clearData_def)
  let ?st = "fold (thinStep (epsilonOf ds)) (entries (buildDataMap ds)) (initWindow ds f0)"
  have out: "DataSink.data ds' = snd (snd ?st)"
    using assms fr by (auto simp: clearData_def split: prod.splits)
  have "length (snd (snd ?st))
          \<le> length (snd (snd (initWindow ds f0)))
             + length (filter (\<lambda>e. fst e \<noteq> NaN) (entries (buildDataMap ds)))"
    by (rule fold_thinStep_length)
  also have "\<dots> = length (filter (\<lambda>e. fst e \<noteq> NaN) (buildDataMap ds))"
    by (simp add: initWindow_def length_filter_entries)
  also have "\<dots> \<le> length (filter (\<lambda>f. js_ge (timeStart f) (Fin 0)) (rawData ds)) * bufferLength ds"
    using fold_writeFrame_count [of "js_div (Fin 1) (sampleRate ds)" "bufferLength ds" "rawData ds" "[]"]
    by (simp add: buildDataMap_def)
  finally show ?thesis
    using out by simp
qed

text \<open>C5 on the fixture: four merged samples, three populated frames of width two.\<close>

theorem C5_output_bound_witness:
  "clearData fixture = Inr reconciled
   \<and> length (DataSink.data reconciled)
       \<le> length (filter (\<lambda>f. js_ge (timeStart f) (Fin 0)) (rawData fixture)) * bufferLength fixture"
  using C5_output_bound [OF reconciled_clearData] reconciled_clearData by simp

section \<open>The keys of the mapping\<close>

lemma fold_writeSample_closed:
  "fold (writeSample inc d) [a..<a + k] (t, m) =
     (timeAt inc t k,
      fold (\<lambda>j. setProp (toKey (timeAt inc t (j - a))) (u8At d j)) [a..<a + k] m)"
proof (induction k)
  case 0
  show ?case by (simp add: timeAt_def)
next
  case (Suc k)
  have "[a..<a + Suc k] = [a..<a + k] @ [a + k]"
    by simp
  then show ?case
    using Suc by (simp add: writeSample_apply timeAt_def)
qed

lemma writeFrame_closed:
  "writeFrame inc n f m =
     (if js_lt (timeStart f) (Fin 0) then m
      else fold (\<lambda>j. setProp (toKey (timeAt inc (timeStart f) j)) (u8At (frame.data f) j)) [0..<n] m)"
  using fold_writeSample_closed [of inc "frame.data f" 0 n "timeStart f" m]
  by (simp add: writeFrame_def)

lemma keys_setProp: "fst ` set (setProp k v m) = insert k (fst ` set m)"
  by (simp add: setProp_def dom_update)

lemma keys_fold_setProp:
  "fst ` set (fold (\<lambda>j. setProp (K j) (V j)) js m) = K ` set js \<union> fst ` set m"
  by (induction js arbitrary: m) (auto simp: keys_setProp)

lemma keys_writeFrame:
  "fst ` set (writeFrame inc n f m) =
     (if js_lt (timeStart f) (Fin 0) then {}
      else (\<lambda>j. toKey (timeAt inc (timeStart f) j)) ` {0..<n}) \<union> fst ` set m"
  by (simp add: writeFrame_closed keys_fold_setProp)

lemma keys_fold_writeFrame:
  "fst ` set (fold (writeFrame inc n) fs m) =
     (\<Union>f\<in>{f \<in> set fs. \<not> js_lt (timeStart f) (Fin 0)}.
        (\<lambda>j. toKey (timeAt inc (timeStart f) j)) ` {0..<n}) \<union> fst ` set m"
proof (induction fs arbitrary: m)
  case Nil
  show ?case by simp
next
  case (Cons f fs)
  show ?case
    unfolding fold_Cons comp_apply Cons.IH keys_writeFrame by auto
qed

text \<open>
  C6, as the code has it. The mapping is built by writing, for every frame that is not
  skipped and every sample index \<open>j\<close> below the frame width, the sample \<open>j\<close> under the key
  \<open>timeAt (1 / sampleRate) timeStart j\<close>: the frame's \<open>timeStart\<close> with \<open>1 / sampleRate\<close>
  added \<open>j\<close> times, each sum rounded. These are exactly the keys of the mapping.
\<close>

theorem C6_keys:
  "buildDataMap ds =
     fold (\<lambda>f dataMap.
             if js_lt (timeStart f) (Fin 0) then dataMap
             else fold (\<lambda>j. setProp (toKey (timeAt (js_div (Fin 1) (sampleRate ds)) (timeStart f) j))
                              (u8At (frame.data f) j))
                    [0..<bufferLength ds] dataMap)
       (rawData ds) []
   \<and> fst ` set (buildDataMap ds) =
       (\<Union>f\<in>{f \<in> set (rawData ds). \<not> js_lt (timeStart f) (Fin 0)}.
          (\<lambda>j. toKey (timeAt (js_div (Fin 1) (sampleRate ds)) (timeStart f) j))
            ` {0..<bufferLength ds})"
proof -
  have "writeFrame (js_div (Fin 1) (sampleRate ds)) (bufferLength ds) =
          (\<lambda>f dataMap.
             if js_lt (timeStart f) (Fin 0) then dataMap
             else fold (\<lambda>j. setProp (toKey (timeAt (js_div (Fin 1) (sampleRate ds)) (timeStart f) j))
                              (u8At (frame.data f) j))
                    [0..<bufferLength ds] dataMap)"
    by (intro ext) (rule writeFrame_closed)
  then have "buildDataMap ds =
     fold (\<lambda>f dataMap.
             if js_lt (timeStart f) (Fin 0) then dataMap
             else fold (\<lambda>j. setProp (toKey (timeAt (js_div (Fin 1) (sampleRate ds)) (timeStart f) j))
                              (u8At (frame.data f) j))
                    [0..<bufferLength ds] dataMap)
       (rawData ds) []"
    by (simp only: buildDataMap_def)
  moreover have "fst ` set (buildDataMap ds) =
       (\<Union>f\<in>{f \<in> set (rawData ds). \<not> js_lt (timeStart f) (Fin 0)}.
          (\<lambda>j. toKey (timeAt (js_div (Fin 1) (sampleRate ds)) (timeStart f) j))
            ` {0..<bufferLength ds})"
    unfolding buildDataMap_def keys_fold_writeFrame by simp
  ultimately show ?thesis
    by (rule conjI)
qed

lemma rate_arith:
  "js_div (Fin 1) (Fin 48000) = Fin (6148914691236517 / 295147905179352825856)"
  "js_add (Fin 0) (Fin (6148914691236517 / 295147905179352825856))
     = Fin (6148914691236517 / 295147905179352825856)"
  "js_add (Fin (6148914691236517 / 295147905179352825856)) (Fin (6148914691236517 / 295147905179352825856))
     = Fin (6148914691236517 / 147573952589676412928)"
  "js_add (Fin (6148914691236517 / 147573952589676412928)) (Fin (6148914691236517 / 295147905179352825856))
     = Fin (1152921504606847 / 18446744073709551616)"
  "js_add (Fin (1152921504606847 / 18446744073709551616)) (Fin (6148914691236517 / 295147905179352825856))
     = Fin (6148914691236517 / 73786976294838206464)"
  "js_add (Fin (6148914691236517 / 73786976294838206464)) (Fin (6148914691236517 / 295147905179352825856))
     = Fin (3843071682022823 / 36893488147419103232)"
  "js_add (Fin (3843071682022823 / 36893488147419103232)) (Fin (6148914691236517 / 295147905179352825856))
     = Fin (1152921504606847 / 9223372036854775808)"
  "js_div (Fin 5) (Fin 48000) = Fin (7686143364045647 / 73786976294838206464)"
  "js_add (Fin 0) (Fin (7686143364045647 / 73786976294838206464))
     = Fin (7686143364045647 / 73786976294838206464)"
  by (simp_all add: num_eval)

lemma upt_0_6: "[0..<6] = [0, 1, 2, 3, 4, 5]"
  by (simp add: upt_rec)

lemma rateFixture_dataMap:
  "buildDataMap rateFixture =
     [(Fin 0, Some 1),
      (Fin (6148914691236517 / 295147905179352825856), Some 2),
      (Fin (6148914691236517 / 147573952589676412928), Some 3),
      (Fin (1152921504606847 / 18446744073709551616), Some 4),
      (Fin (6148914691236517 / 73786976294838206464), Some 5),
      (Fin (3843071682022823 / 36893488147419103232), Some 6)]"
  by (simp add: buildDataMap_def rateFixture_def writeFrame_def writeSample_apply setProp_def
      toKey_def u8At_def upt_0_6 rate_arith js_lt_def)

text \<open>
  C6 as stated fails: at 48 kHz, for a frame starting at 0, sample 5 is written under
  the accumulated key \<open>3843071682022823 / 2 ^ 65\<close>, while
  \<open>timeStart + 5 / sampleRate\<close> is \<open>7686143364045647 / 2 ^ 66\<close>, one unit in the last place
  above it, and the mapping has no entry under that key.
\<close>

theorem C6_counterexample:
  "buildDataMap rateFixture =
     [(Fin 0, Some 1),
      (Fin (6148914691236517 / 295147905179352825856), Some 2),
      (Fin (6148914691236517 / 147573952589676412928), Some 3),
      (Fin (1152921504606847 / 18446744073709551616), Some 4),
      (Fin (6148914691236517 / 73786976294838206464), Some 5),
      (Fin (3843071682022823 / 36893488147419103232), Some 6)]
   \<and> js_add (Fin 0) (js_div (ofNat 5) (Fin 48000)) = Fin (7686143364045647 / 73786976294838206464)
   \<and> map_of (buildDataMap rateFixture) (toKey (js_add (Fin 0) (js_div (ofNat 5) (Fin 48000)))) = None"
  by (simp add: rateFixture_dataMap ofNat_def rate_arith toKey_def)

section \<open>Populating one more frame\<close>

lemma thinStep_apply:
  "thinStep eps e ((advance eps ^^ n) s0, (advance eps ^^ n) e0, out) =
     (if accepts eps (s0, e0) n (fst e)
      then ((advance eps ^^ Suc n) s0, (advance eps ^^ Suc n) e0, out @ [snd e])
      else ((advance eps ^^ n) s0, (advance eps ^^ n) e0, out))"
  by (cases e) (auto simp: thinStep_def accepts_def advance_def Let_def)

lemma fold_thinStep_count:
  "length (snd (snd (fold (thinStep eps) es ((advance eps ^^ n) s0, (advance eps ^^ n) e0, out)))) + n
     = length out + thinCount eps (s0, e0) es n"
proof (induction es arbitrary: n out)
  case Nil
  show ?case by simp
next
  case (Cons e es)
  show ?case
  proof (cases "accepts eps (s0, e0) n (fst e)")
    case True
    then show ?thesis
      using Cons.IH [of "Suc n" "out @ [snd e]"] by (simp add: thinStep_apply del: funpow.simps)
  next
    case False
    then show ?thesis
      using Cons.IH [of n out] by (simp add: thinStep_apply del: funpow.simps)
  qed
qed

lemma thinCount_ge: "n \<le> thinCount eps w es n"
proof (induction es arbitrary: n)
  case Nil
  show ?case by simp
next
  case (Cons e es)
  have "(if accepts eps w n (fst e) then Suc n else n) \<le> thinCount eps w es (if accepts eps w n (fst e) then Suc n else n)"
    by (rule Cons.IH)
  then show ?case by (simp split: if_splits)
qed

lemma thinCount_mono:
  "list_emb sameKey xs ys \<Longrightarrow> n \<le> n' \<Longrightarrow> thinCount eps w xs n \<le> thinCount eps w ys n'"
proof (induction arbitrary: n n' rule: list_emb.induct)
  case (list_emb_Nil ys)
  then show ?case
    using thinCount_ge [of n' eps w ys] by simp
next
  case (list_emb_Cons xs ys y)
  have "n \<le> (if accepts eps w n' (fst y) then Suc n' else n')"
    using list_emb_Cons.prems by simp
  then show ?case
    using list_emb_Cons.IH by simp
next
  case (list_emb_Cons2 x y xs ys)
  have "(if accepts eps w n (fst x) then Suc n else n)
          \<le> (if accepts eps w n' (fst y) then Suc n' else n')"
  proof (cases "n = n'")
    case True
    then show ?thesis
      using list_emb_Cons2.hyps(1) by simp
  next
    case False
    then have "Suc n \<le> n'"
      using list_emb_Cons2.prems by simp
    then show ?thesis by simp
  qed
  then show ?case
    using list_emb_Cons2.IH by simp
qed

lemma list_all2_imp_list_emb: "list_all2 P xs ys \<Longrightarrow> list_emb P xs ys"
  by (induction rule: list_all2_induct) auto

lemma list_all2_filter_sameKey:
  assumes "list_all2 sameKey xs ys" and "\<And>a b. sameKey a b \<Longrightarrow> Q a = Q b"
  shows "list_all2 sameKey (filter Q xs) (filter Q ys)"
  using assms(1)
proof (induction rule: list_all2_induct)
  case Nil
  show ?case by simp
next
  case (Cons x xs y ys)
  have "Q x = Q y"
    using Cons.hyps(1) by (rule assms(2))
  then show ?case
    using Cons.hyps(1) Cons.IH by simp
qed

lemma list_all2_insort_sameKey:
  assumes "list_all2 sameKey xs ys" and "sameKey x y" and "\<And>a b. sameKey a b \<Longrightarrow> f a = f b"
  shows "list_all2 sameKey (insort_key f x xs) (insort_key f y ys)"
  using assms(1)
proof (induction rule: list_all2_induct)
  case Nil
  show ?case using assms(2) by simp
next
  case (Cons a as b bs)
  have fab: "f a = f b"
    using Cons.hyps(1) by (rule assms(3))
  have fxy: "f x = f y"
    using assms(2) by (rule assms(3))
  show ?case
  proof (cases "f x \<le> f a")
    case True
    then have "f y \<le> f b"
      using fab fxy by metis
    with True show ?thesis
      using Cons.hyps assms(2) by simp
  next
    case False
    then have "\<not> f y \<le> f b"
      using fab fxy by metis
    with False show ?thesis
      using Cons.hyps(1) Cons.IH by simp
  qed
qed

lemma list_all2_sort_sameKey:
  assumes "list_all2 sameKey xs ys" and "\<And>a b. sameKey a b \<Longrightarrow> f a = f b"
  shows "list_all2 sameKey (sort_key f xs) (sort_key f ys)"
  using assms(1)
proof (induction rule: list_all2_induct)
  case Nil
  show ?case by simp
next
  case (Cons x xs y ys)
  then show ?case
    using list_all2_insort_sameKey [OF Cons.IH Cons.hyps(1) assms(2)] by simp
qed

lemma isIndex_sameKey: "sameKey a b \<Longrightarrow> isIndex a = isIndex b"
  by (simp add: isIndex_def)

lemma indexOf_sameKey: "sameKey a b \<Longrightarrow> indexOf a = indexOf b"
  by (simp add: indexOf_def)

lemma entries_list_all2:
  assumes "list_all2 sameKey m m'"
  shows "list_all2 sameKey (entries m) (entries m')"
proof -
  have "list_all2 sameKey (filter isIndex m) (filter isIndex m')"
    using assms isIndex_sameKey by (rule list_all2_filter_sameKey)
  then have "list_all2 sameKey (sort_key indexOf (filter isIndex m)) (sort_key indexOf (filter isIndex m'))"
    using indexOf_sameKey by (rule list_all2_sort_sameKey)
  moreover have "list_all2 sameKey (filter (\<lambda>e. \<not> isIndex e) m) (filter (\<lambda>e. \<not> isIndex e) m')"
    using assms by (rule list_all2_filter_sameKey) (simp add: isIndex_def)
  ultimately show ?thesis
    unfolding entries_def by (rule list_all2_appendI)
qed

lemma update_present:
  "k \<in> fst ` set m \<Longrightarrow> list_all2 sameKey m (AList.update k v m)"
proof (induction m)
  case Nil
  then show ?case by simp
next
  case (Cons p m)
  show ?case
  proof (cases "fst p = k")
    case True
    then show ?thesis
      by (simp add: list_all2_same)
  next
    case False
    then show ?thesis
      using Cons by auto
  qed
qed

lemma update_absent: "k \<notin> fst ` set m \<Longrightarrow> AList.update k v m = m @ [(k, v)]"
  by (induction m) auto

lemma sort_key_snoc:
  "f x \<notin> f ` set xs \<Longrightarrow> sort_key f (xs @ [x]) = insort_key f x (sort_key f xs)"
proof (induction xs)
  case Nil
  show ?case by simp
next
  case (Cons a xs)
  then have "f a \<noteq> f x" and "f x \<notin> f ` set xs"
    by auto
  then show ?case
    using Cons.IH insort_key_left_comm [of f a x "sort_key f xs"] by simp
qed

lemma list_emb_insort: "list_emb sameKey ys (insort_key f x ys)"
proof (induction ys)
  case Nil
  show ?case by simp
next
  case (Cons y ys)
  have "list_emb sameKey (y # ys) (y # ys)"
    by (rule list_emb_refl) simp
  then show ?case
    using Cons by auto
qed

lemma arrayIndex_inj:
  assumes "arrayIndex k = Some n" and "arrayIndex k' = Some n"
  shows "k = k'"
proof -
  obtain q where q: "k = Fin q" "0 \<le> q" "of_int \<lfloor>q\<rfloor> = q" "nat \<lfloor>q\<rfloor> = n"
    using assms(1) by (cases k) (auto simp: arrayIndex_def split: if_splits)
  obtain q' where q': "k' = Fin q'" "0 \<le> q'" "of_int \<lfloor>q'\<rfloor> = q'" "nat \<lfloor>q'\<rfloor> = n"
    using assms(2) by (cases k') (auto simp: arrayIndex_def split: if_splits)
  have "\<lfloor>q\<rfloor> = \<lfloor>q'\<rfloor>"
    using q(2,4) q'(2,4) by (metis floor_mono floor_zero nat_eq_iff)
  then show ?thesis
    using q q' by metis
qed

lemma indexOf_fresh:
  assumes "k \<notin> fst ` set m" and "isIndex (k, v)"
  shows "indexOf (k, v) \<notin> indexOf ` set (filter isIndex m)"
proof
  assume "indexOf (k, v) \<in> indexOf ` set (filter isIndex m)"
  then obtain e where e: "e \<in> set m" "isIndex e" "indexOf e = indexOf (k, v)"
    by auto
  obtain n where n: "arrayIndex k = Some n"
    using assms(2) by (auto simp: isIndex_def)
  obtain n' where n': "arrayIndex (fst e) = Some n'"
    using e(2) by (auto simp: isIndex_def)
  have "n' = n"
    using e(3) n n' by (simp add: indexOf_def)
  then have "fst e = k"
    using n n' arrayIndex_inj by blast
  then show False
    using assms(1) e(1) by force
qed

lemma entries_setProp:
  "list_emb sameKey (entries m) (entries (setProp k v m))"
proof (cases "k \<in> fst ` set m")
  case True
  then have "list_all2 sameKey m (setProp k v m)"
    unfolding setProp_def by (rule update_present)
  then show ?thesis
    by (intro list_all2_imp_list_emb entries_list_all2)
next
  case False
  then have upd: "setProp k v m = m @ [(k, v)]"
    unfolding setProp_def by (rule update_absent)
  have refl: "\<And>xs :: (key \<times> 'a) list. list_emb sameKey xs xs"
    by (rule list_emb_refl) simp
  show ?thesis
  proof (cases "isIndex (k, v)")
    case True
    have "sort_key indexOf (filter isIndex m @ [(k, v)])
            = insort_key indexOf (k, v) (sort_key indexOf (filter isIndex m))"
      using indexOf_fresh [OF False True] by (rule sort_key_snoc)
    then have "entries (setProp k v m)
            = insort_key indexOf (k, v) (sort_key indexOf (filter isIndex m))
              @ filter (\<lambda>e. \<not> isIndex e) m"
      using True by (simp add: upd entries_def)
    then show ?thesis
      unfolding entries_def
      using list_emb_append_mono [OF list_emb_insort refl] by metis
  next
    case False
    then have "entries (setProp k v m) = entries m @ [(k, v)]"
      by (simp add: upd entries_def)
    then show ?thesis
      using list_emb_prefix [OF refl] by metis
  qed
qed

lemma sameKey_trans:
  "list_emb sameKey xs ys \<Longrightarrow> list_emb sameKey ys zs \<Longrightarrow> list_emb sameKey xs zs"
  by (rule list_emb_trans [where P = sameKey]) simp_all

lemma entries_writeSamples:
  "list_emb sameKey (entries m) (entries (snd (fold (writeSample inc d) js (t, m))))"
proof (induction js arbitrary: t m)
  case Nil
  show ?case by (simp add: list_emb_refl)
next
  case (Cons j js)
  have "list_emb sameKey (entries (setProp (toKey t) (u8At d j) m))
          (entries (snd (fold (writeSample inc d) js (js_add t inc, setProp (toKey t) (u8At d j) m))))"
    by (rule Cons.IH)
  with entries_setProp [of m "toKey t" "u8At d j"]
  have "list_emb sameKey (entries m)
          (entries (snd (fold (writeSample inc d) js (js_add t inc, setProp (toKey t) (u8At d j) m))))"
    by (rule sameKey_trans)
  then show ?case
    by (simp add: writeSample_apply)
qed

lemma entries_writeFrame:
  "list_emb sameKey (entries m) (entries (writeFrame inc n f m))"
  by (simp add: writeFrame_def entries_writeSamples list_emb_refl)

lemma clearData_count:
  assumes "rawData ds = f0 # fs"
  shows "\<exists>a. clearData ds = Inr a
           \<and> length (DataSink.data a)
               = thinCount (epsilonOf ds)
                   (js_sub (timeStart f0) (epsilonOf ds), js_add (timeStart f0) (epsilonOf ds))
                   (entries (buildDataMap ds)) 0"
proof -
  let ?s0 = "js_sub (timeStart f0) (epsilonOf ds)"
  let ?e0 = "js_add (timeStart f0) (epsilonOf ds)"
  let ?st = "fold (thinStep (epsilonOf ds)) (entries (buildDataMap ds)) (?s0, ?e0, [])"
  have "length (snd (snd ?st)) + 0
          = length ([] :: sample list) + thinCount (epsilonOf ds) (?s0, ?e0) (entries (buildDataMap ds)) 0"
    using fold_thinStep_count [of "epsilonOf ds" "entries (buildDataMap ds)" 0 ?s0 ?e0 "[]"]
    by simp
  moreover have "clearData ds = Inr (ds\<lparr>data := snd (snd ?st)\<rparr>)"
    using assms by (simp add: clearData_def initWindow_def split: prod.splits)
  ultimately show ?thesis
    by simp
qed

lemma buildDataMap_prefix:
  assumes "\<forall>i. k \<le> i \<and> i < length (rawData ds) \<longrightarrow> js_lt (timeStart (rawData ds ! i)) (Fin 0)"
  shows "buildDataMap ds =
           fold (writeFrame (js_div (Fin 1) (sampleRate ds)) (bufferLength ds)) (take k (rawData ds)) []"
proof -
  have "\<forall>f\<in>set (drop k (rawData ds)). js_lt (timeStart f) (Fin 0)"
    using assms by (auto simp: in_set_conv_nth)
  then have "fold (writeFrame (js_div (Fin 1) (sampleRate ds)) (bufferLength ds)) (drop k (rawData ds)) m = m" for m
    by (rule fold_writeFrame_skip)
  moreover have "rawData ds = take k (rawData ds) @ drop k (rawData ds)"
    by simp
  ultimately show ?thesis
    unfolding buildDataMap_def by (metis fold_append comp_apply)
qed

lemma buildDataMap_populate:
  assumes "k < length (rawData ds)"
    and "\<forall>i. k \<le> i \<and> i < length (rawData ds) \<longrightarrow> js_lt (timeStart (rawData ds ! i)) (Fin 0)"
  shows "buildDataMap (ds\<lparr>rawData := (rawData ds)[k := f]\<rparr>) =
           writeFrame (js_div (Fin 1) (sampleRate ds)) (bufferLength ds) f (buildDataMap ds)"
proof -
  let ?wf = "writeFrame (js_div (Fin 1) (sampleRate ds)) (bufferLength ds)"
  have "\<forall>g\<in>set (drop (Suc k) (rawData ds)). js_lt (timeStart g) (Fin 0)"
    using assms(2) by (auto simp: in_set_conv_nth)
  then have skip: "fold ?wf (drop (Suc k) (rawData ds)) m = m" for m
    by (rule fold_writeFrame_skip)
  have "(rawData ds)[k := f] = take k (rawData ds) @ f # drop (Suc k) (rawData ds)"
    using assms(1) by (rule upd_conv_take_nth_drop)
  then have "buildDataMap (ds\<lparr>rawData := (rawData ds)[k := f]\<rparr>)
               = ?wf f (fold ?wf (take k (rawData ds)) [])"
    by (simp add: buildDataMap_def skip)
  then show ?thesis
    using buildDataMap_prefix [OF assms(2)] by simp
qed

text \<open>
  C4. When the frames from index \<open>k\<close> on are unpopulated and frame \<open>k\<close> is then
  populated (replaced by any frame \<open>f\<close>), both sinks reconcile, and the merged samples
  of the second are at least as many as those of the first.
\<close>

theorem C4_length_monotone:
  assumes "k < length (rawData ds)"
    and "\<forall>i. k \<le> i \<and> i < length (rawData ds) \<longrightarrow> js_lt (timeStart (rawData ds ! i)) (Fin 0)"
  shows "\<exists>a b. clearData ds = Inr a
           \<and> clearData (ds\<lparr>rawData := (rawData ds)[k := f]\<rparr>) = Inr b
           \<and> length (DataSink.data a) \<le> length (DataSink.data b)"
proof -
  let ?ds' = "ds\<lparr>rawData := (rawData ds)[k := f]\<rparr>"
  obtain f0 fs where fr: "rawData ds = f0 # fs"
    using assms(1) by (cases "rawData ds") auto
  obtain g0 gs where gr: "rawData ?ds' = g0 # gs"
    using assms(1) by (cases "(rawData ds)[k := f]") auto
  obtain a where a: "clearData ds = Inr a"
    "length (DataSink.data a)
       = thinCount (epsilonOf ds)
           (js_sub (timeStart f0) (epsilonOf ds), js_add (timeStart f0) (epsilonOf ds))
           (entries (buildDataMap ds)) 0"
    using clearData_count [OF fr] by blast
  obtain b where b: "clearData ?ds' = Inr b"
    "length (DataSink.data b)
       = thinCount (epsilonOf ?ds')
           (js_sub (timeStart g0) (epsilonOf ?ds'), js_add (timeStart g0) (epsilonOf ?ds'))
           (entries (buildDataMap ?ds')) 0"
    using clearData_count [OF gr] by blast
  have "length (DataSink.data a) \<le> length (DataSink.data b)"
  proof (cases k)
    case 0
    then have "buildDataMap ds = []"
      using buildDataMap_prefix [OF assms(2)] by simp
    then show ?thesis
      using a(2) by (simp add: entries_Nil)
  next
    case (Suc k')
    then have "g0 = f0"
      using fr gr by simp
    moreover have "epsilonOf ?ds' = epsilonOf ds"
      by (simp add: epsilonOf_def)
    moreover have "list_emb sameKey (entries (buildDataMap ds)) (entries (buildDataMap ?ds'))"
      unfolding buildDataMap_populate [OF assms] by (rule entries_writeFrame)
    ultimately show ?thesis
      using a(2) b(2) thinCount_mono [of "entries (buildDataMap ds)" "entries (buildDataMap ?ds')" 0 0]
      by simp
  qed
  with a(1) b(1) show ?thesis
    by blast
qed

lemma fixturePartial_eq:
  "fixturePartial = \<lparr>sampleRate = Fin 4, bufferLength = 2, maxBufferIndex = 3,
     rawData = [\<lparr>timeStart = Fin 0, data = [10, 20]\<rparr>,
                \<lparr>timeStart = Fin (1 / 2), data = [30, 40]\<rparr>,
                \<lparr>timeStart = Fin (- 1), data = [0, 0]\<rparr>],
     data = []\<rparr>"
  by (simp add: fixturePartial_def fixture_def eval_nat_numeral)

lemma fixturePartial_populate:
  "fixturePartial\<lparr>rawData := (rawData fixturePartial)[2 := \<lparr>timeStart = Fin 1, data = [50, 60]\<rparr>]\<rparr> = fixture"
  by (simp add: fixturePartial_eq fixture_def eval_nat_numeral)

lemma fixturePartial_clearData:
  "clearData fixturePartial = Inr (fixturePartial\<lparr>data := [Some 10, Some 20, Some 40]\<rparr>)"
proof -
  have m: "buildDataMap fixturePartial =
      [(Fin 0, Some 10), (Fin (1 / 4), Some 20), (Fin (1 / 2), Some 30), (Fin (3 / 4), Some 40)]"
    by (simp add: buildDataMap_def fixturePartial_eq writeFrame_def writeSample_apply setProp_def
        toKey_def u8At_def upt_0_2 fixture_arith js_lt_def)
  have e: "entries (buildDataMap fixturePartial) =
      [(Fin 0, Some 10), (Fin (1 / 4), Some 20), (Fin (1 / 2), Some 30), (Fin (3 / 4), Some 40)]"
    by (simp add: m entries_def isIndex_def indexOf_def arrayIndex_def floor_rat_numeral_div
        floor_rat_one_div)
  have eps: "epsilonOf fixturePartial = Fin (1 / 4)"
    by (simp add: epsilonOf_def fixturePartial_eq fixture_arith)
  have "fold (thinStep (epsilonOf fixturePartial)) (entries (buildDataMap fixturePartial))
          (initWindow fixturePartial \<lparr>timeStart = Fin 0, data = [10, 20]\<rparr>)
        = (Fin (5 / 4), Fin (7 / 4), [Some 10, Some 20, Some 40])"
    by (simp add: e eps initWindow_def thinStep_def parseFloat_def fixture_arith js_ge_def js_le_def)
  then show ?thesis
    by (simp add: clearData_def fixturePartial_eq)
qed

text \<open>
  C4 on the fixture: with two frames populated the output is \<open>[10, 20, 40]\<close>; populating
  the third gives \<open>[10, 20, 40, 60]\<close>.
\<close>

theorem C4_length_monotone_witness:
  "2 < length (rawData fixturePartial)
   \<and> js_lt (timeStart (rawData fixturePartial ! 2)) (Fin 0)
   \<and> clearData fixturePartial = Inr (fixturePartial\<lparr>data := [Some 10, Some 20, Some 40]\<rparr>)
   \<and> clearData (fixturePartial\<lparr>rawData := (rawData fixturePartial)[2 := \<lparr>timeStart = Fin 1, data = [50, 60]\<rparr>]\<rparr>)
       = Inr reconciled
   \<and> length [Some (10 :: byte), Some 20, Some 40] \<le> length (DataSink.data reconciled)"
proof -
  have h1: "2 < length (rawData fixturePartial)"
    by (simp add: fixturePartial_eq)
  have h0: "js_lt (timeStart (rawData fixturePartial ! 2)) (Fin 0)"
    by (simp add: fixturePartial_eq js_lt_def eval_nat_numeral)
  have h2: "\<forall>i. 2 \<le> i \<and> i < length (rawData fixturePartial)
              \<longrightarrow> js_lt (timeStart (rawData fixturePartial ! i)) (Fin 0)"
  proof (intro allI impI)
    fix i
    assume "2 \<le> i \<and> i < length (rawData fixturePartial)"
    then have "i = 2"
      by (simp add: fixturePartial_eq)
    then show "js_lt (timeStart (rawData fixturePartial ! i)) (Fin 0)"
      using h0 by simp
  qed
  show ?thesis
    using C4_length_monotone [OF h1 h2, of "\<lparr>timeStart = Fin 1, data = [50, 60]\<rparr>"]
      h1 h0 fixturePartial_clearData reconciled_clearData
    by (auto simp: fixturePartial_populate)
qed

end
